theory Spec2Isabelle
  imports Complex_Main
begin

section \<open>The health scan (scripts/health-scan.ts)\<close>

text \<open>
  JavaScript numbers are modelled by \<^typ>\<open>real\<close> (finite values, exact arithmetic), counts and
  canvas sizes by \<^typ>\<open>nat\<close> and \<^typ>\<open>int\<close>, \<open>null\<close>/\<open>undefined\<close> by \<open>None\<close>. Strings are ASCII
  character lists. What the browser answers during one probe is an explicit record of
  observations, so that the driver becomes a function of the manifest entry and of these answers.
\<close>

subsection \<open>Data\<close>

datatype GameStatus = working | broken | missing_assets | unknown | flaky

record ManifestControl =
  device :: string
  input :: string
  action :: string

text \<open>\<open>controls?: { movement?: ManifestControl[] }\<close>: both levels may be absent.\<close>

record ManifestGame =
  game_id :: string
  game_title :: string
  game_status :: GameStatus
  controls :: "ManifestControl list option option"

record FrameSignature =
  width :: int
  height :: int
  luminances :: "real list"

record AnimationActivity =
  tickCount :: nat
  elapsedMs :: real

text \<open>An element of \<open>HealthWindow.metrics\<close>: the two optional fields the driver reads. A field
  that is absent, not a number or not finite is \<open>None\<close>.\<close>

record HealthMetric =
  metric_fps :: "real option"
  metric_firstPaintMs :: "real option"

record HealthWindow =
  health_ready :: bool
  health_metrics :: "HealthMetric list"
  health_errors :: nat

text \<open>The entries of \<open>issues\<close>, the first with the timeout in seconds and the second with the
  error count that their texts quote, and the three kinds of note: \<open>Pass\<close>, the issues joined
  by \<open>; \<close>, and \<open>Excluded (missing assets)\<close>. The rendering into strings is not modelled.\<close>

datatype issue =
  ReadyNotObserved real
  | HighErrorCount nat
  | NoMotionDetected
  | NoInputResponse

datatype noteText = NotePass | NoteIssues "issue list" | NoteExcluded

record HealthResult =
  result_id :: string
  result_title :: string
  ready :: bool
  avgFps :: "real option"
  firstPaint :: "real option"
  errors :: nat
  stalled :: bool
  noMotion :: bool
  noResponse :: bool
  status :: GameStatus
  previousStatus :: GameStatus
  result_note :: noteText

subsection \<open>selectFirstMovementKey\<close>

definition isWhitespace :: "char \<Rightarrow> bool" where
  "isWhitespace c \<longleftrightarrow> c \<in> set [CHR '' '', CHR 0x09, CHR 0x0A, CHR 0x0B, CHR 0x0C, CHR 0x0D]"

definition isWordChar :: "char \<Rightarrow> bool" where
  "isWordChar c \<longleftrightarrow>
     c \<in> set ''abcdefghijklmnopqrstuvwxyzABCDEFGHIJKLMNOPQRSTUVWXYZ0123456789_''"

definition upperChar :: "char \<Rightarrow> char" where
  "upperChar c =
     (case map_of (zip ''abcdefghijklmnopqrstuvwxyz'' ''ABCDEFGHIJKLMNOPQRSTUVWXYZ'') c of
        Some u \<Rightarrow> u | None \<Rightarrow> c)"

definition lowerChar :: "char \<Rightarrow> char" where
  "lowerChar c =
     (case map_of (zip ''ABCDEFGHIJKLMNOPQRSTUVWXYZ'' ''abcdefghijklmnopqrstuvwxyz'') c of
        Some l \<Rightarrow> l | None \<Rightarrow> c)"

definition toUpperCase :: "string \<Rightarrow> string" where
  "toUpperCase s = map upperChar s"

definition toLowerCase :: "string \<Rightarrow> string" where
  "toLowerCase s = map lowerChar s"

text \<open>\<open>s.split(c)[0]\<close> for a separator of one character: the text before its first occurrence.\<close>

definition firstSplit :: "char \<Rightarrow> string \<Rightarrow> string" where
  "firstSplit sep s = takeWhile (\<lambda>c. c \<noteq> sep) s"

text \<open>The regular expression \<open>/\bor\b/i\<close> matches at the head of \<open>s\<close>, the character before
  being \<open>prev\<close>: the letters o and r in either case, with a word boundary on both sides.\<close>

definition matchesOrAt :: "char option \<Rightarrow> string \<Rightarrow> bool" where
  "matchesOrAt prev s =
     (case s of
        c1 # c2 # rest \<Rightarrow>
          (c1 = CHR ''o'' \<or> c1 = CHR ''O'') \<and> (c2 = CHR ''r'' \<or> c2 = CHR ''R'')
          \<and> (case prev of None \<Rightarrow> True | Some p \<Rightarrow> \<not> isWordChar p)
          \<and> (case rest of [] \<Rightarrow> True | n # _ \<Rightarrow> \<not> isWordChar n)
      | _ \<Rightarrow> False)"

text \<open>\<open>s.split(/\bor\b/i)[0]\<close>: the text before the first match.\<close>

fun beforeOr :: "char option \<Rightarrow> string \<Rightarrow> string" where
  "beforeOr prev [] = []"
| "beforeOr prev (c # cs) =
     (if matchesOrAt prev (c # cs) then [] else c # beforeOr (Some c) cs)"

definition trim :: "string \<Rightarrow> string" where
  "trim s = rev (dropWhile isWhitespace (rev (dropWhile isWhitespace s)))"

text \<open>\<open>s.replace(/\s+/g, ' ')\<close>; the flag says that the previous character was whitespace.\<close>

fun collapseWhitespace :: "bool \<Rightarrow> string \<Rightarrow> string" where
  "collapseWhitespace inRun [] = []"
| "collapseWhitespace inRun (c # cs) =
     (if isWhitespace c
      then (if inRun then collapseWhitespace True cs
            else CHR '' '' # collapseWhitespace True cs)
      else c # collapseWhitespace False cs)"

definition startsWith :: "string \<Rightarrow> string \<Rightarrow> bool" where
  "startsWith s p \<longleftrightarrow> take (length p) s = p"

fun includesStr :: "string \<Rightarrow> string \<Rightarrow> bool" where
  "includesStr [] p \<longleftrightarrow> p = []"
| "includesStr (c # cs) p \<longleftrightarrow> startsWith (c # cs) p \<or> includesStr cs p"

definition arrowMap :: "string \<Rightarrow> string option" where
  "arrowMap = map_of
     [(''LEFT'', ''ArrowLeft''), (''RIGHT'', ''ArrowRight''),
      (''UP'', ''ArrowUp''), (''DOWN'', ''ArrowDown'')]"

text \<open>The part of the function after \<open>rawInput\<close> has been read.\<close>

definition keyOfInput :: "string \<Rightarrow> string option" where
  "keyOfInput rawInput =
     (let firstSegment =
            trim (firstSplit CHR '','' (firstSplit CHR ''/''
              (beforeOr None (firstSplit CHR ''|'' rawInput))))
      in if firstSegment = [] then None
         else
           let token = collapseWhitespace False firstSegment;
               upper = toUpperCase token
           in if startsWith upper ''ARROW'' \<and> includesStr upper ''LEFT'' then Some ''ArrowLeft''
              else if startsWith upper ''ARROW'' \<and> includesStr upper ''RIGHT'' then Some ''ArrowRight''
              else if startsWith upper ''ARROW'' \<and> includesStr upper ''UP'' then Some ''ArrowUp''
              else if startsWith upper ''ARROW'' \<and> includesStr upper ''DOWN'' then Some ''ArrowDown''
              else
                (case arrowMap upper of
                   Some k \<Rightarrow> Some k
                 | None \<Rightarrow>
                     if (case upper of
                           [c] \<Rightarrow> c \<in> set ''ABCDEFGHIJKLMNOPQRSTUVWXYZ''
                         | _ \<Rightarrow> False)
                     then Some (toLowerCase upper)
                     else if upper = ''SPACE'' \<or> upper = ''SPACEBAR'' then Some ''Space''
                     else None))"

definition selectFirstMovementKey :: "ManifestGame \<Rightarrow> string option" where
  "selectFirstMovementKey game =
     (case controls game of
        None \<Rightarrow> None
      | Some None \<Rightarrow> None
      | Some (Some movement) \<Rightarrow>
          (case movement of
             [] \<Rightarrow> None
           | first # _ \<Rightarrow> if input first = [] then None else keyOfInput (input first)))"

subsection \<open>Frame signatures\<close>

text \<open>\<open>Math.round\<close>: the nearest integer, a tie going up.\<close>

definition Math_round :: "real \<Rightarrow> int" where
  "Math_round x = \<lfloor>x + 1 / 2\<rfloor>"

text \<open>What drawing the canvas into the offscreen buffer and reading it back gives: no 2d
  context for the buffer, an exception, or the RGBA bytes by index.\<close>

datatype raster = NoBufferContext | RasterThrows | ImageData "nat \<Rightarrow> nat"

record CanvasElement =
  canvas_width :: nat
  canvas_height :: nat
  rect_width :: real
  rect_height :: real
  context2d :: bool
  drawInto :: "int \<Rightarrow> int \<Rightarrow> raster"

text \<open>What \<open>document.querySelector('iframe')\<close>, its \<open>contentDocument\<close> and the canvas query of
  that document find; \<open>Inaccessible\<close> is a page on which one of these steps throws.\<close>

datatype Page = NoIframe | NoDocument | NoCanvas | Inaccessible | WithCanvas CanvasElement

definition intrinsicSize :: "CanvasElement \<Rightarrow> int \<times> int" where
  "intrinsicSize canvas =
     (if canvas_width canvas \<noteq> 0 then int (canvas_width canvas)
      else Math_round (rect_width canvas),
      if canvas_height canvas \<noteq> 0 then int (canvas_height canvas)
      else Math_round (rect_height canvas))"

definition luminanceOf :: "(nat \<Rightarrow> nat) \<Rightarrow> nat \<Rightarrow> real" where
  "luminanceOf imageData i =
     (let idx = i * 4;
          r = imageData idx;
          g = imageData (idx + 1);
          b = imageData (idx + 2)
      in 0.2126 * real r + 0.7152 * real g + 0.0722 * real b)"

definition captureCanvasSignature :: "Page \<Rightarrow> real \<Rightarrow> FrameSignature option" where
  "captureCanvasSignature page targetWidth =
     (case page of
        WithCanvas canvas \<Rightarrow>
          if \<not> context2d canvas then None
          else
            let (intrinsicWidth, intrinsicHeight) = intrinsicSize canvas
            in if intrinsicWidth = 0 \<or> intrinsicHeight = 0 then None
               else
                 let scale = min 1 (targetWidth / real_of_int intrinsicWidth);
                     width = max 1 (Math_round (real_of_int intrinsicWidth * scale));
                     height = max 1 (Math_round (real_of_int intrinsicHeight * scale))
                 in (case drawInto canvas width height of
                       ImageData imageData \<Rightarrow>
                         Some \<lparr>width = width, height = height,
                               luminances = map (luminanceOf imageData) [0..<nat (width * height)]\<rparr>
                     | _ \<Rightarrow> None)
      | _ \<Rightarrow> None)"

text \<open>The default of the parameter \<open>downscaleWidth\<close>; every call of the driver uses it.\<close>

definition downscaleWidth :: real where
  "downscaleWidth = 128"

definition computeSignatureDelta ::
  "FrameSignature option \<Rightarrow> FrameSignature option \<Rightarrow> real option" where
  "computeSignatureDelta a b =
     (case (a, b) of
        (Some a, Some b) \<Rightarrow>
          if width a \<noteq> width b \<or> height a \<noteq> height b then None
          else
            let length = length (luminances a)
            in if length = 0 \<or> length \<noteq> List.length (luminances b) then None
               else
                 let total = fold (\<lambda>i total. total + \<bar>luminances a ! i - luminances b ! i\<bar>)
                               [0..<length] 0
                 in Some (total / (real length * 255))
      | _ \<Rightarrow> None)"

text \<open>\<open>probeCanvasDimensions\<close> reads the same page.\<close>

definition probeCanvasDimensions :: "Page \<Rightarrow> (int \<times> int) option" where
  "probeCanvasDimensions page =
     (case page of
        WithCanvas canvas \<Rightarrow>
          let (width, height) = intrinsicSize canvas
          in if width = 0 \<or> height = 0 then None else Some (width, height)
      | _ \<Rightarrow> None)"

subsection \<open>Probing one entry\<close>

text \<open>
  The answers of the browser during the probe of one entry: whether the wait for
  \<open>__healthScan.ready\<close> resolved before the timeout, the page the fallback probe reads, the
  \<open>__healthScan\<close> object, the count of the \<open>pageerror\<close> and console error events, the answer of
  \<open>measureAnimationActivity\<close>, the page at the two captures, and what the key press and the
  capture after it do: an exception in the \<open>try\<close> block, or the page at the third capture.
  The calls outside the \<open>try\<close> block are taken to return.
\<close>

datatype dispatch = DispatchFails | Dispatched Page

record ProbeObservations =
  readySignal :: bool
  fallbackPage :: Page
  health :: "HealthWindow option"
  consoleErrorCount :: nat
  animationActivity :: "AnimationActivity option"
  pageA :: Page
  pageB :: Page
  keyPress :: dispatch

text \<open>\<open>Number(x.toFixed(2))\<close>: two decimals, the nearest, a tie going away from zero.\<close>

definition toFixed2 :: "real \<Rightarrow> real" where
  "toFixed2 x =
     (if x < 0 then - (real_of_int \<lfloor>- x * 100 + 1 / 2\<rfloor> / 100)
      else real_of_int \<lfloor>x * 100 + 1 / 2\<rfloor> / 100)"

definition shouldMarkBroken :: "bool \<Rightarrow> bool \<Rightarrow> bool \<Rightarrow> nat \<Rightarrow> bool" where
  "shouldMarkBroken isStalled isNoMotion isNoResponse totalErrors \<longleftrightarrow>
     isStalled \<or> isNoMotion \<or> isNoResponse \<or> totalErrors > 3"

definition derivedStatus :: "bool \<Rightarrow> GameStatus \<Rightarrow> GameStatus" where
  "derivedStatus markBroken previous = (if markBroken then broken else previous)"

definition belowThreshold :: "real option \<Rightarrow> bool" where
  "belowThreshold delta \<longleftrightarrow> (case delta of None \<Rightarrow> False | Some d \<Rightarrow> d < 0.01)"

definition probeReady :: "ProbeObservations \<Rightarrow> bool" where
  "probeReady obs =
     (if readySignal obs then True
      else probeCanvasDimensions (fallbackPage obs) \<noteq> None)"

definition probeAvgFps :: "bool \<Rightarrow> ProbeObservations \<Rightarrow> real option" where
  "probeAvgFps isReady obs =
     (let metrics = (case health obs of None \<Rightarrow> [] | Some h \<Rightarrow> health_metrics h);
          fpsSamples = List.map_filter metric_fps metrics;
          avgFps = (if length fpsSamples > 0
                    then Some (toFixed2 (sum_list fpsSamples / real (length fpsSamples)))
                    else None)
      in if isReady
         then (case animationActivity obs of
                 Some activity \<Rightarrow>
                   if elapsedMs activity > 0
                   then Some (toFixed2 (real (tickCount activity) / (elapsedMs activity / 1000)))
                   else avgFps
               | None \<Rightarrow> avgFps)
         else avgFps)"

definition probeFirstPaint :: "ProbeObservations \<Rightarrow> real option" where
  "probeFirstPaint obs =
     (let metrics = (case health obs of None \<Rightarrow> [] | Some h \<Rightarrow> health_metrics h)
      in case List.find (\<lambda>sample. metric_firstPaintMs sample \<noteq> None) metrics of
           None \<Rightarrow> None
         | Some firstPaintSample \<Rightarrow> metric_firstPaintMs firstPaintSample)"

definition probeNoMotion :: "bool \<Rightarrow> ProbeObservations \<Rightarrow> bool" where
  "probeNoMotion isReady obs =
     (if isReady
      then
        let signatureA = captureCanvasSignature (pageA obs) downscaleWidth;
            signatureB = captureCanvasSignature (pageB obs) downscaleWidth;
            motionDelta = computeSignatureDelta signatureA signatureB;
            tickCount = (case animationActivity obs of None \<Rightarrow> 0 | Some activity \<Rightarrow> tickCount activity)
        in belowThreshold motionDelta \<or> tickCount \<le> 30
      else False)"

definition probeNoResponse :: "bool \<Rightarrow> ManifestGame \<Rightarrow> ProbeObservations \<Rightarrow> bool" where
  "probeNoResponse isReady game obs =
     (if isReady
      then
        let signatureB = captureCanvasSignature (pageB obs) downscaleWidth;
            movementKey = selectFirstMovementKey game
        in if (case movementKey of None \<Rightarrow> False | Some k \<Rightarrow> k \<noteq> []) \<and> signatureB \<noteq> None
           then (case keyPress obs of
                   DispatchFails \<Rightarrow> True
                 | Dispatched pageC \<Rightarrow>
                     let signatureC = captureCanvasSignature pageC downscaleWidth;
                         responseDelta = computeSignatureDelta signatureB signatureC
                     in belowThreshold responseDelta)
           else False
      else False)"

definition probeIssues :: "real \<Rightarrow> bool \<Rightarrow> nat \<Rightarrow> bool \<Rightarrow> bool \<Rightarrow> issue list" where
  "probeIssues readinessTimeout isStalled totalErrors isNoMotion isNoResponse =
     (if isStalled then [ReadyNotObserved (readinessTimeout / 1000)] else [])
     @ (if totalErrors > 3 then [HighErrorCount totalErrors] else [])
     @ (if isNoMotion then [NoMotionDetected] else [])
     @ (if isNoResponse then [NoInputResponse] else [])"

text \<open>The body of the loop of \<open>main\<close> for an entry that is probed.\<close>

definition probeGame :: "real \<Rightarrow> ManifestGame \<Rightarrow> ProbeObservations \<Rightarrow> HealthResult" where
  "probeGame readinessTimeout game obs =
     (let ready = probeReady obs;
          avgFps = probeAvgFps ready obs;
          firstPaint = probeFirstPaint obs;
          totalErrors = (case health obs of None \<Rightarrow> 0 | Some h \<Rightarrow> health_errors h)
                        + consoleErrorCount obs;
          noMotion = probeNoMotion ready obs;
          noResponse = probeNoResponse ready game obs;
          stalled = (\<not> ready);
          issues = probeIssues readinessTimeout stalled totalErrors noMotion noResponse
      in \<lparr>result_id = game_id game,
          result_title = game_title game,
          ready = ready,
          avgFps = avgFps,
          firstPaint = firstPaint,
          errors = totalErrors,
          stalled = stalled,
          noMotion = noMotion,
          noResponse = noResponse,
          status = derivedStatus (shouldMarkBroken stalled noMotion noResponse totalErrors)
                     (game_status game),
          previousStatus = game_status game,
          result_note = (if length issues > 0 then NoteIssues issues else NotePass)\<rparr>)"

text \<open>The result pushed for an entry whose status is \<open>missing-assets\<close>, which is not probed.\<close>

definition excludedResult :: "ManifestGame \<Rightarrow> HealthResult" where
  "excludedResult game =
     \<lparr>result_id = game_id game,
      result_title = game_title game,
      ready = False,
      avgFps = None,
      firstPaint = None,
      errors = 0,
      stalled = True,
      noMotion = True,
      noResponse = True,
      status = game_status game,
      previousStatus = game_status game,
      result_note = NoteExcluded\<rparr>"

definition scanEntry :: "real \<Rightarrow> ManifestGame \<Rightarrow> ProbeObservations \<Rightarrow> HealthResult" where
  "scanEntry readinessTimeout game obs =
     (if game_status game = missing_assets then excludedResult game
      else probeGame readinessTimeout game obs)"

text \<open>The loop over \<open>manifest.games\<close>, each entry with the observations of its probe.\<close>

definition scanGames ::
  "real \<Rightarrow> ManifestGame list \<Rightarrow> ProbeObservations list \<Rightarrow> HealthResult list" where
  "scanGames readinessTimeout games observations =
     map (\<lambda>(game, obs). scanEntry readinessTimeout game obs) (zip games observations)"

subsection \<open>Reconciliation\<close>

text \<open>\<open>manifest.games.find((entry) => entry.id === result.id)\<close> followed by the assignment
  to the status of the entry found: the first entry with that id.\<close>

fun markTarget :: "string \<Rightarrow> ManifestGame list \<Rightarrow> ManifestGame list option" where
  "markTarget rid [] = None"
| "markTarget rid (entry # rest) =
     (if game_id entry = rid then Some (entry\<lparr>game_status := broken\<rparr> # rest)
      else map_option ((#) entry) (markTarget rid rest))"

definition reconcileResult ::
  "HealthResult \<Rightarrow> ManifestGame list \<times> bool \<Rightarrow> ManifestGame list \<times> bool" where
  "reconcileResult result acc =
     (case acc of (games, manifestChanged) \<Rightarrow>
        if status result = broken \<and> previousStatus result \<noteq> broken
        then (case markTarget (result_id result) games of
                Some games' \<Rightarrow> (games', True)
              | None \<Rightarrow> (games, manifestChanged))
        else (games, manifestChanged))"

definition reconcile :: "HealthResult list \<Rightarrow> ManifestGame list \<Rightarrow> ManifestGame list \<times> bool" where
  "reconcile results games = fold reconcileResult results (games, False)"

record CliOptions =
  writeChanges :: bool

text \<open>
  What one run leaves behind: the exit code, the results written to the two reports (the
  rendering of the reports is not modelled), and the games written to \<open>games.manifest.json\<close>,
  \<open>None\<close> when the file is not written.
\<close>

record RunOutcome =
  exitCode :: nat
  reported :: "HealthResult list option"
  manifestWritten :: "ManifestGame list option"

definition main ::
  "CliOptions \<Rightarrow> bool \<Rightarrow> real \<Rightarrow> ManifestGame list \<Rightarrow> ProbeObservations list \<Rightarrow> RunOutcome" where
  "main cli reachable readinessTimeout games observations =
     (if \<not> reachable
      then \<lparr>exitCode = 1, reported = None, manifestWritten = None\<rparr>
      else
        let results = scanGames readinessTimeout games observations
        in if writeChanges cli
           then (case reconcile results games of
                   (games', manifestChanged) \<Rightarrow>
                     \<lparr>exitCode = 0, reported = Some results,
                      manifestWritten = (if manifestChanged then Some games' else None)\<rparr>)
           else \<lparr>exitCode = 0, reported = Some results, manifestWritten = None\<rparr>)"

section \<open>The bridge agent (src/lib/bridgeScript.ts)\<close>

text \<open>
  The agent runs inside the embedded document. Its calls of \<open>post\<close>, \<open>window.dispatchEvent\<close> and
  \<open>document.dispatchEvent\<close> are the effects of a handler, listed in the order of the calls.
\<close>

definition BRIDGE_PARENT_SOURCE :: string where
  "BRIDGE_PARENT_SOURCE = ''arcade-parent''"

definition BRIDGE_SOURCE :: string where
  "BRIDGE_SOURCE = ''arcade-bridge''"

record MetricsSample =
  fps :: real
  frameTimeMs :: real
  frameSamples :: nat
  canvasSize :: "(real \<times> real) option"
  firstPaintMs :: "real option"
  devicePixelRatio :: real

text \<open>The payloads of the messages modelled here. An error payload holds the message and the
  stack; a highscores payload holds the entries, a key with the value stored under it.\<close>

datatype payload =
  MetricsPayload MetricsSample
  | ErrorPayload string "string option"
  | PauseStatePayload string
  | HighscoresPayload "(string \<times> string option) list"

datatype effect =
  DispatchWindow string
  | DispatchDocument string
  | Post string payload

subsection \<open>recordFrame\<close>

record metricsState =
  lastTimestamp :: "real option"
  frameCount :: nat
  frameTimes :: "real list"
  lastPost :: real
  state_firstPaint :: "real option"
  start :: real

text \<open>What the document answers while one frame is recorded: \<open>performance.now()\<close>, the size
  \<open>detectCanvas()\<close> finds, and \<open>window.devicePixelRatio\<close>. With real numbers \<open>fps\<close> is always
  finite, so the test \<open>Number.isFinite(fps)\<close> of the payload has one branch only.\<close>

record FrameEnv =
  performanceNow :: real
  detectCanvas :: "(real \<times> real) option"
  windowDevicePixelRatio :: real

definition recordFrame ::
  "real \<Rightarrow> FrameEnv \<Rightarrow> metricsState \<Rightarrow> metricsState \<times> effect list" where
  "recordFrame timestamp env st =
     (let st1 =
            (case lastTimestamp st of
               Some previous \<Rightarrow>
                 let delta = timestamp - previous;
                     pushed = frameTimes st @ [delta];
                     times = (if length pushed > 60 then tl pushed else pushed)
                 in st\<lparr>frameCount := frameCount st + 1,
                       frameTimes := times,
                       state_firstPaint :=
                         (case state_firstPaint st of
                            None \<Rightarrow> Some (performanceNow env - start st)
                          | Some p \<Rightarrow> Some p)\<rparr>
             | None \<Rightarrow> st);
          st2 = st1\<lparr>lastTimestamp := Some timestamp\<rparr>
      in if timestamp - lastPost st2 \<ge> 100
         then
           let frameCount = length (frameTimes st2);
               average = (if frameCount > 0 then sum_list (frameTimes st2) / real frameCount
                          else 0);
               fps = (if average > 0 then 1000 / average else 0)
           in (st2\<lparr>frameCount := 0, lastPost := timestamp\<rparr>,
               [Post ''arcade:metrics''
                  (MetricsPayload
                     \<lparr>fps = toFixed2 fps,
                      frameTimeMs = toFixed2 average,
                      frameSamples = frameCount,
                      canvasSize = detectCanvas env,
                      firstPaintMs = state_firstPaint st2,
                      devicePixelRatio =
                        (if windowDevicePixelRatio env \<noteq> 0 then windowDevicePixelRatio env
                         else 1)\<rparr>)])
         else (st2, []))"

text \<open>The state at injection, \<open>performance.now()\<close> reading \<open>now\<close>.\<close>

definition initialMetricsState :: "real \<Rightarrow> metricsState" where
  "initialMetricsState now =
     \<lparr>lastTimestamp = None, frameCount = 0, frameTimes = [], lastPost = now,
      state_firstPaint = None, start = now\<rparr>"

text \<open>The frame recorder fed with a sequence of animation frames, each a timestamp with the
  answers of the document; every effect is listed with the timestamp of the frame that caused
  it.\<close>

fun recordFrames :: "metricsState \<Rightarrow> (real \<times> FrameEnv) list \<Rightarrow> (real \<times> effect) list" where
  "recordFrames st [] = []"
| "recordFrames st ((timestamp, env) # frames) =
     (case recordFrame timestamp env st of
        (st', effects) \<Rightarrow> map (Pair timestamp) effects @ recordFrames st' frames)"

subsection \<open>The message handler\<close>

text \<open>A call of the storage API throws (the stack of the value thrown, when it is an \<open>Error\<close>)
  or returns.\<close>

datatype 'a outcome = Throws "string option" | Returns 'a

record Storage =
  storage_length :: "nat outcome"
  storage_key :: "nat \<Rightarrow> string option outcome"
  storage_getItem :: "string \<Rightarrow> string option outcome"

text \<open>The loop over \<open>window.localStorage\<close> inside the \<open>try\<close> block, from index \<open>i\<close> with the
  entries pushed so far: the entries at its end, and the stack when it ended by an exception.\<close>

function enumerateStorage ::
  "Storage \<Rightarrow> nat \<Rightarrow> (string \<times> string option) list
     \<Rightarrow> (string \<times> string option) list \<times> string option option" where
  "enumerateStorage storage i entries =
     (case storage_length storage of
        Throws stack \<Rightarrow> (entries, Some stack)
      | Returns n \<Rightarrow>
          if i < n
          then (case storage_key storage i of
                  Throws stack \<Rightarrow> (entries, Some stack)
                | Returns None \<Rightarrow> enumerateStorage storage (i + 1) entries
                | Returns (Some key) \<Rightarrow>
                    if key = [] then enumerateStorage storage (i + 1) entries
                    else (case storage_getItem storage key of
                            Throws stack \<Rightarrow> (entries, Some stack)
                          | Returns v \<Rightarrow>
                              enumerateStorage storage (i + 1) (entries @ [(key, v)])))
          else (entries, None))"
  by pat_completeness auto
termination
  by (relation "measure (\<lambda>(storage, i, entries).
        (case storage_length storage of Throws _ \<Rightarrow> 0 | Returns n \<Rightarrow> n - i))") auto

declare enumerateStorage.simps [simp del]

record MessageData =
  msg_source :: "string option"
  msg_type :: "string option"

record MessageEvent =
  msg_data :: "MessageData option"
  msg_origin :: string

definition requestHighscores :: "Storage \<Rightarrow> effect list" where
  "requestHighscores storage =
     (case enumerateStorage storage 0 [] of
        (entries, failure) \<Rightarrow>
          (case failure of
             Some stack \<Rightarrow> [Post ''arcade:error'' (ErrorPayload ''Failed to enumerate localStorage'' stack)]
           | None \<Rightarrow> [])
          @ [Post ''arcade:highscores'' (HighscoresPayload entries)])"

text \<open>The listener of \<open>message\<close> events; \<open>ORIGIN\<close> is \<open>window.origin\<close> at injection.\<close>

definition onMessage :: "string \<Rightarrow> Storage \<Rightarrow> MessageEvent \<Rightarrow> effect list" where
  "onMessage ORIGIN storage event =
     (case msg_data event of
        None \<Rightarrow> []
      | Some d \<Rightarrow>
          if msg_source d \<noteq> Some BRIDGE_PARENT_SOURCE then []
          else if msg_origin event \<noteq> ORIGIN then []
          else
            (case msg_type d of
               None \<Rightarrow> []
             | Some t \<Rightarrow>
                 if t = [] then []
                 else if t = ''arcade:focus'' \<or> t = ''arcade:blur''
                         \<or> t = ''arcade:pause'' \<or> t = ''arcade:resume''
                 then [DispatchWindow t, DispatchDocument t,
                       Post ''arcade:pause-state'' (PauseStatePayload t)]
                 else if t = ''arcade:toggle-help''
                 then [DispatchWindow ''arcade:toggle-help'',
                       DispatchDocument ''arcade:toggle-help'']
                 else if t = ''arcade:request-highscores''
                 then requestHighscores storage
                 else []))"

section \<open>Example inputs\<close>

text \<open>A canvas of two pixels by one, every byte of which reads \<open>v\<close>.\<close>

definition canvasShowing :: "nat \<Rightarrow> CanvasElement" where
  "canvasShowing v =
     \<lparr>canvas_width = 2, canvas_height = 1, rect_width = 0, rect_height = 0,
      context2d = True, drawInto = (\<lambda>w h. ImageData (\<lambda>i. v))\<rparr>"

text \<open>A probe during which the entry signals readiness, animates (120 ticks in two seconds),
  changes its picture between the two captures and again after the key press, and logs no
  error.\<close>

definition livelyObservations :: ProbeObservations where
  "livelyObservations =
     \<lparr>readySignal = True, fallbackPage = NoCanvas,
      health = Some \<lparr>health_ready = True, health_metrics = [], health_errors = 0\<rparr>,
      consoleErrorCount = 0,
      animationActivity = Some \<lparr>tickCount = 120, elapsedMs = 2000\<rparr>,
      pageA = WithCanvas (canvasShowing 0), pageB = WithCanvas (canvasShowing 255),
      keyPress = Dispatched (WithCanvas (canvasShowing 0))\<rparr>"

text \<open>The same probe, except that the readiness signal never arrives while the page does hold
  a canvas.\<close>

definition silentObservations :: ProbeObservations where
  "silentObservations =
     livelyObservations\<lparr>readySignal := False, fallbackPage := WithCanvas (canvasShowing 0)\<rparr>"

text \<open>A probe of a page on which nothing ever appears.\<close>

definition deadObservations :: ProbeObservations where
  "deadObservations =
     \<lparr>readySignal = False, fallbackPage = NoCanvas, health = None, consoleErrorCount = 0,
      animationActivity = None, pageA = NoCanvas, pageB = NoCanvas, keyPress = DispatchFails\<rparr>"

text \<open>A manifest entry with the given id and status, and with one movement control of the
  given input description, when there is one.\<close>

definition exampleGame :: "string \<Rightarrow> GameStatus \<Rightarrow> string option \<Rightarrow> ManifestGame" where
  "exampleGame gid st description =
     \<lparr>game_id = gid, game_title = gid, game_status = st,
      controls =
        (case description of
           None \<Rightarrow> None
         | Some i \<Rightarrow> Some (Some [\<lparr>device = ''keyboard'', input = i, action = ''move''\<rparr>]))\<rparr>"

text \<open>A canvas taller than wide, 90 pixels by 160, every byte of which reads \<open>v\<close>.\<close>

definition portraitCanvas :: "nat \<Rightarrow> CanvasElement" where
  "portraitCanvas v =
     \<lparr>canvas_width = 90, canvas_height = 160, rect_width = 0, rect_height = 0,
      context2d = True, drawInto = (\<lambda>w h. ImageData (\<lambda>i. v))\<rparr>"

text \<open>A canvas of the usual size of the games, 800 pixels by 600.\<close>

definition landscapeCanvas :: "nat \<Rightarrow> CanvasElement" where
  "landscapeCanvas v =
     \<lparr>canvas_width = 800, canvas_height = 600, rect_width = 0, rect_height = 0,
      context2d = True, drawInto = (\<lambda>w h. ImageData (\<lambda>i. v))\<rparr>"

text \<open>A manifest of three entries: one that works so far and whose probe finds nothing, one that
  is already broken and whose probe finds nothing, and one that works and passes.\<close>

definition exampleManifest :: "ManifestGame list" where
  "exampleManifest =
     [exampleGame ''pong'' working None, exampleGame ''maze'' broken None,
      exampleGame ''snake'' working None]"

definition exampleObservations :: "ProbeObservations list" where
  "exampleObservations = [deadObservations, deadObservations, livelyObservations]"

text \<open>A source of animation frames at 240 Hz: frame \<open>k\<close> comes \<open>k\<close> times 25/6 milliseconds
  after the injection, in a document with a canvas of 800 by 600 pixels.\<close>

definition frameAt :: "nat \<Rightarrow> real \<times> FrameEnv" where
  "frameAt k =
     (real k * 25 / 6,
      \<lparr>performanceNow = real k * 25 / 6, detectCanvas = Some (800, 600),
       windowDevicePixelRatio = 1\<rparr>)"

definition frames240Hz :: "nat \<Rightarrow> (real \<times> FrameEnv) list" where
  "frames240Hz n = map frameAt [0..<n]"

text \<open>The timestamps that a throttle of 100 milliseconds lets through, the last message having
  gone out at \<open>previous\<close>.\<close>

fun postTimes :: "real \<Rightarrow> real list \<Rightarrow> real list" where
  "postTimes previous [] = []"
| "postTimes previous (t # ts) =
     (if 100 \<le> t - previous then t # postTimes t ts else postTimes previous ts)"

text \<open>What the iteration of the loop over the storage at index \<open>i\<close> does: it throws, or it
  pushes no entry (no key, or an empty key) or one entry.\<close>

definition storageEntryAt :: "Storage \<Rightarrow> nat \<Rightarrow> (string \<times> string option) list outcome" where
  "storageEntryAt storage i =
     (case storage_key storage i of
        Throws stack \<Rightarrow> Throws stack
      | Returns None \<Rightarrow> Returns []
      | Returns (Some key) \<Rightarrow>
          if key = [] then Returns []
          else (case storage_getItem storage key of
                  Throws stack \<Rightarrow> Throws stack
                | Returns v \<Rightarrow> Returns [(key, v)]))"

text \<open>The entries of the indices from \<open>i\<close> up to, not including, \<open>k\<close>.\<close>

definition entriesBetween :: "Storage \<Rightarrow> nat \<Rightarrow> nat \<Rightarrow> (string \<times> string option) list" where
  "entriesBetween storage i k =
     concat (map (\<lambda>j. case storageEntryAt storage j of Returns es \<Rightarrow> es | Throws _ \<Rightarrow> [])
       [i..<k])"

definition isHighscoresPost :: "effect \<Rightarrow> bool" where
  "isHighscoresPost e \<longleftrightarrow>
     (case e of
        Post t (HighscoresPayload _) \<Rightarrow> t = ''arcade:highscores''
      | _ \<Rightarrow> False)"

text \<open>A storage of two high scores, and one of three keys whose third key cannot be read.\<close>

definition exampleStorage :: Storage where
  "exampleStorage =
     \<lparr>storage_length = Returns 2,
      storage_key = (\<lambda>i. if i = 0 then Returns (Some ''impulseHighScore'')
                         else if i = 1 then Returns (Some ''gravityFlipHighScore'')
                         else Returns None),
      storage_getItem = (\<lambda>key. if key = ''impulseHighScore'' then Returns (Some ''120'')
                                else if key = ''gravityFlipHighScore'' then Returns (Some ''7'')
                                else Returns None)\<rparr>"

definition failingStorage :: Storage where
  "failingStorage =
     exampleStorage\<lparr>storage_length := Returns 3,
       storage_key := (\<lambda>i. if i = 2 then Throws (Some ''SecurityError'')
                            else storage_key exampleStorage i)\<rparr>"

definition controlMessage :: "string \<Rightarrow> MessageEvent" where
  "controlMessage t =
     \<lparr>msg_data = Some \<lparr>msg_source = Some BRIDGE_PARENT_SOURCE, msg_type = Some t\<rparr>,
      msg_origin = ''http://127.0.0.1:5173''\<rparr>"

section \<open>Evaluation of the examples\<close>

lemma capture_canvasShowing:
  "captureCanvasSignature (WithCanvas (canvasShowing v)) downscaleWidth =
     Some \<lparr>width = 2, height = 1, luminances = [real v, real v]\<rparr>"
proof -
  have "luminanceOf (\<lambda>i. v) k = real v" for k
    by (simp add: luminanceOf_def Let_def algebra_simps)
  then show ?thesis
    by (simp add: captureCanvasSignature_def canvasShowing_def downscaleWidth_def
        intrinsicSize_def Math_round_def Let_def upt_rec)
qed

lemma delta_canvasShowing:
  "computeSignatureDelta
     (Some \<lparr>width = 2, height = 1, luminances = [a, a]\<rparr>)
     (Some \<lparr>width = 2, height = 1, luminances = [b, b]\<rparr>) = Some (\<bar>a - b\<bar> / 255)"
  by (simp add: computeSignatureDelta_def Let_def upt_rec)

lemma probeReady_lively: "probeReady livelyObservations"
  by (simp add: probeReady_def livelyObservations_def)

lemma probeReady_silent: "probeReady silentObservations"
  by (simp add: probeReady_def silentObservations_def livelyObservations_def
      probeCanvasDimensions_def canvasShowing_def intrinsicSize_def)

lemma probeReady_dead: "\<not> probeReady deadObservations"
  by (simp add: probeReady_def deadObservations_def probeCanvasDimensions_def)

lemma probeNoMotion_lively: "\<not> probeNoMotion True livelyObservations"
  by (simp add: probeNoMotion_def livelyObservations_def capture_canvasShowing
      delta_canvasShowing belowThreshold_def Let_def)

lemma probeNoMotion_silent: "\<not> probeNoMotion True silentObservations"
  by (simp add: probeNoMotion_def silentObservations_def livelyObservations_def
      capture_canvasShowing delta_canvasShowing belowThreshold_def Let_def)

lemma selectFirstMovementKey_none:
  "selectFirstMovementKey (exampleGame gid st None) = None"
  by (simp add: selectFirstMovementKey_def exampleGame_def)

lemma probeNoResponse_no_key:
  "selectFirstMovementKey game = None \<Longrightarrow> \<not> probeNoResponse isReady game obs"
  by (simp add: probeNoResponse_def Let_def)

lemma errors_lively:
  "errors (probeGame T game livelyObservations) = 0"
  "errors (probeGame T game silentObservations) = 0"
  "errors (probeGame T game deadObservations) = 0"
  by (simp_all add: probeGame_def Let_def livelyObservations_def silentObservations_def
      deadObservations_def)

lemma probeGame_flags:
  "stalled (probeGame T game obs) = (\<not> probeReady obs)"
  "ready (probeGame T game obs) = probeReady obs"
  "noMotion (probeGame T game obs) = probeNoMotion (probeReady obs) obs"
  "noResponse (probeGame T game obs) = probeNoResponse (probeReady obs) game obs"
  "previousStatus (probeGame T game obs) = game_status game"
  "result_id (probeGame T game obs) = game_id game"
  "status (probeGame T game obs) =
     derivedStatus
       (shouldMarkBroken (\<not> probeReady obs) (probeNoMotion (probeReady obs) obs)
          (probeNoResponse (probeReady obs) game obs) (errors (probeGame T game obs)))
       (game_status game)"
  by (simp_all add: probeGame_def Let_def)

section \<open>The classification of a probed entry\<close>

text \<open>
  Claim C1. For an entry that is probed (its status is not \<open>missing-assets\<close>),
  \<open>shouldMarkBroken\<close> is true exactly when at least one of stalled, noMotion, noResponse and
  an error count above 3 holds, for every combination of the four inputs; and the status of the
  result is \<open>broken\<close> when one of them holds for the result, the previous persisted status of the
  entry otherwise.
\<close>

theorem classification_of_probed_entry:
  assumes "game_status game \<noteq> missing_assets"
  shows "(shouldMarkBroken s m n e \<longleftrightarrow> s \<or> m \<or> n \<or> e > 3)
    \<and> status (scanEntry T game obs) =
        (if shouldMarkBroken (stalled (scanEntry T game obs)) (noMotion (scanEntry T game obs))
              (noResponse (scanEntry T game obs)) (errors (scanEntry T game obs))
         then broken else game_status game)
    \<and> previousStatus (scanEntry T game obs) = game_status game"
  using assms
  by (simp add: scanEntry_def probeGame_def Let_def shouldMarkBroken_def derivedStatus_def)

theorem classification_of_probed_entry_witness:
  "game_status (exampleGame ''pong'' flaky None) \<noteq> missing_assets
   \<and> \<not> shouldMarkBroken False False False 3
   \<and> shouldMarkBroken False False False 4
   \<and> status (scanEntry 10000 (exampleGame ''pong'' flaky None) livelyObservations) = flaky
   \<and> status (scanEntry 10000 (exampleGame ''pong'' flaky None) deadObservations) = broken"
proof -
  let ?g = "exampleGame ''pong'' flaky None"
  have g: "game_status ?g \<noteq> missing_assets"
    by (simp add: exampleGame_def)
  have lively: "\<not> stalled (scanEntry 10000 ?g livelyObservations)"
    "\<not> noMotion (scanEntry 10000 ?g livelyObservations)"
    "\<not> noResponse (scanEntry 10000 ?g livelyObservations)"
    "errors (scanEntry 10000 ?g livelyObservations) = 0"
    using g
    by (simp_all add: scanEntry_def probeGame_flags probeReady_lively probeNoMotion_lively
        probeNoResponse_no_key selectFirstMovementKey_none errors_lively)
  have dead: "stalled (scanEntry 10000 ?g deadObservations)"
    using g by (simp add: scanEntry_def probeGame_flags probeReady_dead)
  have st: "game_status ?g = flaky"
    by (simp add: exampleGame_def)
  from classification_of_probed_entry [OF g, of False False False 3 10000 livelyObservations]
    classification_of_probed_entry [OF g, of False False False 4 10000 deadObservations]
  show ?thesis
    using g lively dead st by (simp add: shouldMarkBroken_def)
qed

section \<open>Broken results and their causes\<close>

lemma scanEntry_lively_broken:
  "status (scanEntry 10000 (exampleGame ''pong'' broken None) livelyObservations) = broken"
  "\<not> stalled (scanEntry 10000 (exampleGame ''pong'' broken None) livelyObservations)"
  "\<not> noMotion (scanEntry 10000 (exampleGame ''pong'' broken None) livelyObservations)"
  "\<not> noResponse (scanEntry 10000 (exampleGame ''pong'' broken None) livelyObservations)"
  "errors (scanEntry 10000 (exampleGame ''pong'' broken None) livelyObservations) = 0"
proof -
  have g: "game_status (exampleGame ''pong'' broken None) = broken"
    by (simp add: exampleGame_def)
  show "status (scanEntry 10000 (exampleGame ''pong'' broken None) livelyObservations) = broken"
    by (simp add: scanEntry_def g probeGame_flags derivedStatus_def)
  show "\<not> stalled (scanEntry 10000 (exampleGame ''pong'' broken None) livelyObservations)"
    by (simp add: scanEntry_def g probeGame_flags probeReady_lively)
  show "\<not> noMotion (scanEntry 10000 (exampleGame ''pong'' broken None) livelyObservations)"
    by (simp add: scanEntry_def g probeGame_flags probeReady_lively probeNoMotion_lively)
  show "\<not> noResponse (scanEntry 10000 (exampleGame ''pong'' broken None) livelyObservations)"
    by (simp add: scanEntry_def g probeGame_flags probeNoResponse_no_key
        selectFirstMovementKey_none)
  show "errors (scanEntry 10000 (exampleGame ''pong'' broken None) livelyObservations) = 0"
    by (simp add: scanEntry_def g errors_lively)
qed

text \<open>
  Claim C2 as stated fails: an entry whose persisted status is already \<open>broken\<close> and whose probe
  raises no flag keeps the status \<open>broken\<close> in its result, with no cause flagged.
\<close>

theorem broken_without_cause_counterexample:
  "scanEntry 10000 (exampleGame ''pong'' broken None) livelyObservations
     \<in> set (scanGames 10000 [exampleGame ''pong'' broken None] [livelyObservations])
   \<and> status (scanEntry 10000 (exampleGame ''pong'' broken None) livelyObservations) = broken
   \<and> \<not> (stalled (scanEntry 10000 (exampleGame ''pong'' broken None) livelyObservations)
        \<or> noMotion (scanEntry 10000 (exampleGame ''pong'' broken None) livelyObservations)
        \<or> noResponse (scanEntry 10000 (exampleGame ''pong'' broken None) livelyObservations)
        \<or> errors (scanEntry 10000 (exampleGame ''pong'' broken None) livelyObservations) > 3)"
  by (simp add: scanEntry_lively_broken scanGames_def)

lemma scanEntry_broken_cause:
  "status (scanEntry T game obs) = broken \<Longrightarrow>
     stalled (scanEntry T game obs) \<or> noMotion (scanEntry T game obs)
     \<or> noResponse (scanEntry T game obs) \<or> errors (scanEntry T game obs) > 3
     \<or> previousStatus (scanEntry T game obs) = broken"
  by (auto simp: scanEntry_def excludedResult_def probeGame_def Let_def shouldMarkBroken_def
      derivedStatus_def split: if_splits)

text \<open>
  Claim C2, amended. Every result of a scan whose status is \<open>broken\<close> has one of the causes
  flagged (stalled, noMotion, noResponse, or more than 3 errors), or belongs to an entry whose
  previous persisted status was already \<open>broken\<close>.
\<close>

theorem broken_has_cause_or_was_broken:
  assumes "r \<in> set (scanGames T games observations)" and "status r = broken"
  shows "stalled r \<or> noMotion r \<or> noResponse r \<or> errors r > 3 \<or> previousStatus r = broken"
proof -
  from assms(1) obtain game obs where "r = scanEntry T game obs"
    by (auto simp: scanGames_def)
  with assms(2) show ?thesis
    using scanEntry_broken_cause [of T game obs] by simp
qed

theorem broken_has_cause_or_was_broken_witness:
  "scanEntry 10000 (exampleGame ''pong'' working None) deadObservations
     \<in> set (scanGames 10000 [exampleGame ''pong'' working None] [deadObservations])
   \<and> status (scanEntry 10000 (exampleGame ''pong'' working None) deadObservations) = broken
   \<and> previousStatus (scanEntry 10000 (exampleGame ''pong'' working None) deadObservations)
       \<noteq> broken
   \<and> errors (scanEntry 10000 (exampleGame ''pong'' working None) deadObservations) = 0
   \<and> (stalled (scanEntry 10000 (exampleGame ''pong'' working None) deadObservations)
      \<or> noMotion (scanEntry 10000 (exampleGame ''pong'' working None) deadObservations)
      \<or> noResponse (scanEntry 10000 (exampleGame ''pong'' working None) deadObservations))"
proof -
  let ?g = "exampleGame ''pong'' working None"
  let ?r = "scanEntry 10000 ?g deadObservations"
  have g: "game_status ?g = working"
    by (simp add: exampleGame_def)
  have mem: "?r \<in> set (scanGames 10000 [?g] [deadObservations])"
    by (simp add: scanGames_def)
  have st: "status ?r = broken"
    by (simp add: scanEntry_def g probeGame_flags probeReady_dead derivedStatus_def
        shouldMarkBroken_def)
  have prev: "previousStatus ?r \<noteq> broken"
    by (simp add: scanEntry_def g probeGame_flags)
  have err: "errors ?r = 0"
    by (simp add: scanEntry_def g errors_lively)
  from broken_has_cause_or_was_broken [OF mem st] prev err
  have "stalled ?r \<or> noMotion ?r \<or> noResponse ?r" by simp
  with mem st prev err show ?thesis by simp
qed

section \<open>The stalled flag\<close>

text \<open>
  Claim C3 as stated fails: when the readiness signal never arrives but the fallback probe of
  the page finds a canvas, the entry counts as ready and is not stalled.
\<close>

theorem stalled_iff_no_signal_counterexample:
  "game_status (exampleGame ''pong'' working None) \<noteq> missing_assets
   \<and> \<not> readySignal silentObservations
   \<and> \<not> stalled (scanEntry 10000 (exampleGame ''pong'' working None) silentObservations)"
proof -
  have g: "game_status (exampleGame ''pong'' working None) = working"
    by (simp add: exampleGame_def)
  have "\<not> readySignal silentObservations"
    by (simp add: silentObservations_def)
  moreover have
    "\<not> stalled (scanEntry 10000 (exampleGame ''pong'' working None) silentObservations)"
    by (simp add: scanEntry_def g probeGame_flags probeReady_silent)
  ultimately show ?thesis using g by simp
qed

text \<open>
  Claim C3, amended. For a probed entry, stalled is true exactly when the readiness signal did
  not arrive within the timeout and the fallback probe of the page found no canvas with a
  non-zero size; in particular stalled is false whenever the signal arrived.
\<close>

theorem stalled_iff_no_signal_and_no_canvas:
  assumes "game_status game \<noteq> missing_assets"
  shows "(stalled (scanEntry T game obs) \<longleftrightarrow>
            \<not> readySignal obs \<and> probeCanvasDimensions (fallbackPage obs) = None)
    \<and> (readySignal obs \<longrightarrow> \<not> stalled (scanEntry T game obs))"
  using assms
  by (cases "probeCanvasDimensions (fallbackPage obs)")
    (simp_all add: scanEntry_def probeGame_flags probeReady_def)

theorem stalled_iff_no_signal_and_no_canvas_witness:
  "game_status (exampleGame ''pong'' working None) \<noteq> missing_assets
   \<and> \<not> readySignal deadObservations
   \<and> probeCanvasDimensions (fallbackPage deadObservations) = None
   \<and> stalled (scanEntry 10000 (exampleGame ''pong'' working None) deadObservations)
   \<and> readySignal livelyObservations
   \<and> \<not> stalled (scanEntry 10000 (exampleGame ''pong'' working None) livelyObservations)"
proof -
  have g: "game_status (exampleGame ''pong'' working None) \<noteq> missing_assets"
    by (simp add: exampleGame_def)
  have d: "\<not> readySignal deadObservations"
    "probeCanvasDimensions (fallbackPage deadObservations) = None"
    by (simp_all add: deadObservations_def probeCanvasDimensions_def)
  have l: "readySignal livelyObservations"
    by (simp add: livelyObservations_def)
  from stalled_iff_no_signal_and_no_canvas [OF g, of 10000 deadObservations]
    stalled_iff_no_signal_and_no_canvas [OF g, of 10000 livelyObservations]
  show ?thesis using g d l by simp
qed

section \<open>The delta of two signatures\<close>

lemma fold_unchanged: "fold (\<lambda>i total. total) is (t :: real) = t"
  by (induction "is") simp_all

lemma capture_size:
  assumes "captureCanvasSignature (WithCanvas canvas) targetWidth = Some sig"
  shows "fst (intrinsicSize canvas) \<noteq> 0 \<and> snd (intrinsicSize canvas) \<noteq> 0
    \<and> width sig =
        max 1 (Math_round (real_of_int (fst (intrinsicSize canvas))
          * min 1 (targetWidth / real_of_int (fst (intrinsicSize canvas)))))
    \<and> height sig =
        max 1 (Math_round (real_of_int (snd (intrinsicSize canvas))
          * min 1 (targetWidth / real_of_int (fst (intrinsicSize canvas)))))
    \<and> length (luminances sig) = nat (width sig * height sig)"
  using assms
  by (auto simp: captureCanvasSignature_def Let_def split_beta
      split: if_splits raster.splits)

lemma captured_not_empty:
  assumes "captureCanvasSignature page targetWidth = Some sig"
  shows "1 \<le> width sig \<and> 1 \<le> height sig \<and> luminances sig \<noteq> []"
proof -
  from assms obtain canvas where page: "page = WithCanvas canvas"
    by (cases page) (simp_all add: captureCanvasSignature_def)
  note size = capture_size [OF assms [unfolded page]]
  then have w: "1 \<le> width sig" and h: "1 \<le> height sig"
    by simp_all
  then have "0 < width sig * height sig"
    by simp
  with size have "0 < length (luminances sig)"
    by simp
  with w h show ?thesis by simp
qed

lemma delta_of_identical_not_empty:
  "width a = width b \<Longrightarrow> height a = height b \<Longrightarrow> luminances a = luminances b \<Longrightarrow>
     luminances a \<noteq> [] \<Longrightarrow> computeSignatureDelta (Some a) (Some b) = Some 0"
  by (cases a; cases b) (simp add: computeSignatureDelta_def Let_def fold_unchanged)

text \<open>
  Claim C4. The signatures that reach \<open>computeSignatureDelta\<close> are those that
  \<open>captureCanvasSignature\<close> returns, each with at least one pixel and with luminances computed
  from the bytes of the image. For any two such signatures with the same dimensions and
  identical luminance buffers the delta is exactly 0; and for any two signatures whose widths
  or heights differ the result is \<open>null\<close>, never a number.
\<close>

theorem delta_of_captured_signatures:
  "(captureCanvasSignature firstPage firstTarget = Some a \<and> captureCanvasSignature secondPage secondTarget = Some b
      \<and> width a = width b \<and> height a = height b \<and> luminances a = luminances b
    \<longrightarrow> computeSignatureDelta (Some a) (Some b) = Some 0)
   \<and> (width a \<noteq> width b \<or> height a \<noteq> height b \<longrightarrow>
        computeSignatureDelta (Some a) (Some b) = None)"
proof (intro conjI impI)
  assume captured: "captureCanvasSignature firstPage firstTarget = Some a
    \<and> captureCanvasSignature secondPage secondTarget = Some b
    \<and> width a = width b \<and> height a = height b \<and> luminances a = luminances b"
  then have "luminances a \<noteq> []"
    using captured_not_empty [of firstPage firstTarget a] by blast
  with captured show "computeSignatureDelta (Some a) (Some b) = Some 0"
    by (intro delta_of_identical_not_empty) blast+
next
  assume "width a \<noteq> width b \<or> height a \<noteq> height b"
  then show "computeSignatureDelta (Some a) (Some b) = None"
    by (simp add: computeSignatureDelta_def)
qed

theorem delta_of_captured_signatures_witness:
  "captureCanvasSignature (WithCanvas (canvasShowing 12)) downscaleWidth =
     Some \<lparr>width = 2, height = 1, luminances = [12, 12]\<rparr>
   \<and> computeSignatureDelta
       (captureCanvasSignature (WithCanvas (canvasShowing 12)) downscaleWidth)
       (captureCanvasSignature (WithCanvas (canvasShowing 12)) downscaleWidth) = Some 0
   \<and> computeSignatureDelta
       (captureCanvasSignature (WithCanvas (canvasShowing 12)) downscaleWidth)
       (Some \<lparr>width = 1, height = 2, luminances = [12, 12]\<rparr>) = None"
proof -
  let ?sig = "\<lparr>width = 2, height = 1, luminances = [12, 12]\<rparr>"
  have captured: "captureCanvasSignature (WithCanvas (canvasShowing 12)) downscaleWidth =
      Some ?sig"
    using capture_canvasShowing [of 12] by simp
  from delta_of_captured_signatures
      [of "WithCanvas (canvasShowing 12)" downscaleWidth ?sig
          "WithCanvas (canvasShowing 12)" downscaleWidth ?sig]
    captured
  have same: "computeSignatureDelta (Some ?sig) (Some ?sig) = Some 0"
    by blast
  from delta_of_captured_signatures
      [of "WithCanvas (canvasShowing 12)" downscaleWidth ?sig
          "WithCanvas (canvasShowing 12)" downscaleWidth
          "\<lparr>width = 1, height = 2, luminances = [12, 12]\<rparr>"]
  have other: "computeSignatureDelta (Some ?sig)
      (Some \<lparr>width = 1, height = 2, luminances = [12, 12]\<rparr>) = None"
    by simp
  from captured same other show ?thesis
    by (simp only: simp_thms)
qed

section \<open>The size of a captured signature\<close>

lemma capture_example_size:
  assumes "context2d canvas" and "canvas_width canvas \<noteq> 0" and "canvas_height canvas \<noteq> 0"
    and "\<And>w h. drawInto canvas w h = ImageData (\<lambda>i. v)"
  shows "map_option (\<lambda>sig. (width sig, height sig))
           (captureCanvasSignature (WithCanvas canvas) targetWidth) =
         Some (max 1 (Math_round (real (canvas_width canvas)
                 * min 1 (targetWidth / real (canvas_width canvas)))),
               max 1 (Math_round (real (canvas_height canvas)
                 * min 1 (targetWidth / real (canvas_width canvas)))))"
  using assms
  by (simp add: captureCanvasSignature_def Let_def split_beta intrinsicSize_def)

lemma scaled_width_le:
  assumes "iw \<noteq> 0"
  shows "max 1 (Math_round (real_of_int iw * min 1 (128 / real_of_int iw))) \<le> 128"
proof (cases "0 < iw \<and> iw \<le> 128")
  case True
  then have "1 \<le> 128 / real_of_int iw"
    by (simp add: le_divide_eq)
  then have "min 1 (128 / real_of_int iw) = 1"
    by simp
  with True show ?thesis
    by (simp add: Math_round_def)
next
  case False
  with assms have "128 / real_of_int iw \<le> 1"
    by (cases "0 < iw") (simp_all add: divide_le_eq)
  then have "min 1 (128 / real_of_int iw) = 128 / real_of_int iw"
    by simp
  with assms show ?thesis
    by (simp add: Math_round_def)
qed

lemma scaled_height_le:
  assumes "0 < ih" and "ih \<le> iw"
  shows "max 1 (Math_round (real_of_int ih * min 1 (128 / real_of_int iw))) \<le> 128"
proof -
  have "real_of_int ih * min 1 (128 / real_of_int iw) \<le> real_of_int ih * (128 / real_of_int iw)"
    using assms by (intro mult_left_mono) simp_all
  also have "\<dots> = 128 * (real_of_int ih / real_of_int iw)"
    by simp
  also have "\<dots> \<le> 128 * 1"
    using assms by (intro mult_left_mono) (simp_all add: divide_le_eq)
  finally have "real_of_int ih * min 1 (128 / real_of_int iw) + 1 / 2 < 129"
    by simp
  then have "Math_round (real_of_int ih * min 1 (128 / real_of_int iw)) < 129"
    unfolding Math_round_def by (simp add: floor_less_iff)
  then show ?thesis by simp
qed

text \<open>
  Claim C5 as stated fails: only the width is held against the cap. A canvas of 90 by 160
  pixels is not scaled at all, and its signature is 160 pixels high.
\<close>

theorem longer_dimension_capped_counterexample:
  "map_option (\<lambda>sig. (width sig, height sig))
     (captureCanvasSignature (WithCanvas (portraitCanvas 0)) downscaleWidth) = Some (90, 160)
   \<and> \<not> max (90 :: int) 160 \<le> 128"
proof -
  have "map_option (\<lambda>sig. (width sig, height sig))
      (captureCanvasSignature (WithCanvas (portraitCanvas 0)) downscaleWidth) = Some (90, 160)"
    by (subst capture_example_size [where v = 0])
      (simp_all add: portraitCanvas_def downscaleWidth_def Math_round_def)
  then show ?thesis by simp
qed

text \<open>
  Claim C5, amended. For every signature returned by a successful capture with the default
  target width, whatever the intrinsic size of the canvas, the width of the signature is at
  least 1 and at most 128, the height is at least 1, and the buffer holds width times height
  luminances; the height, and so the longer dimension, is at most 128 as well when the
  intrinsic height of the canvas is positive and not above its intrinsic width.
\<close>

theorem captured_width_capped:
  assumes "captureCanvasSignature page downscaleWidth = Some sig"
  shows "1 \<le> width sig \<and> width sig \<le> 128 \<and> 1 \<le> height sig
    \<and> length (luminances sig) = nat (width sig * height sig)
    \<and> (\<forall>canvas. page = WithCanvas canvas \<and> 0 < snd (intrinsicSize canvas)
          \<and> snd (intrinsicSize canvas) \<le> fst (intrinsicSize canvas)
        \<longrightarrow> max (width sig) (height sig) \<le> 128)"
proof -
  from assms obtain canvas where page: "page = WithCanvas canvas"
    by (cases page) (simp_all add: captureCanvasSignature_def)
  note size = capture_size [OF assms [unfolded page]]
  from size have w: "width sig \<le> 128"
    using scaled_width_le [of "fst (intrinsicSize canvas)"] by (simp add: downscaleWidth_def)
  have h: "height sig \<le> 128"
    if "0 < snd (intrinsicSize canvas)" "snd (intrinsicSize canvas) \<le> fst (intrinsicSize canvas)"
    using size scaled_height_le [OF that] by (simp add: downscaleWidth_def)
  from size have "1 \<le> width sig" "1 \<le> height sig"
    "length (luminances sig) = nat (width sig * height sig)"
    by simp_all
  with w h page show ?thesis by auto
qed

theorem captured_width_capped_witness:
  "map_option (\<lambda>sig. (width sig, height sig))
     (captureCanvasSignature (WithCanvas (landscapeCanvas 0)) downscaleWidth) = Some (128, 96)
   \<and> (case captureCanvasSignature (WithCanvas (landscapeCanvas 0)) downscaleWidth of
         None \<Rightarrow> False
       | Some sig \<Rightarrow> width sig \<le> 128 \<and> max (width sig) (height sig) \<le> 128
           \<and> length (luminances sig) = 12288)"
proof -
  have size: "map_option (\<lambda>sig. (width sig, height sig))
      (captureCanvasSignature (WithCanvas (landscapeCanvas 0)) downscaleWidth) = Some (128, 96)"
    by (subst capture_example_size [where v = 0])
      (simp_all add: landscapeCanvas_def downscaleWidth_def Math_round_def)
  then obtain sig where
    sig: "captureCanvasSignature (WithCanvas (landscapeCanvas 0)) downscaleWidth = Some sig"
    and dims: "width sig = 128" "height sig = 96"
    by auto
  have intrinsic: "intrinsicSize (landscapeCanvas 0) = (800, 600)"
    by (simp add: intrinsicSize_def landscapeCanvas_def)
  from captured_width_capped [OF sig] intrinsic dims
  have "width sig \<le> 128 \<and> max (width sig) (height sig) \<le> 128
      \<and> length (luminances sig) = 12288"
    by simp
  with size sig show ?thesis by simp
qed


section \<open>The response test\<close>

lemma keyOfInput_Mouse: "keyOfInput ''Mouse'' = None"
  by code_simp

lemma keyOfInput_A_D: "keyOfInput ''A/D'' = Some ''a''"
  by code_simp

lemma arrowMap_not_empty: "arrowMap u \<noteq> Some []"
  by (simp add: arrowMap_def)

lemma toLowerCase_empty: "toLowerCase s = [] \<longleftrightarrow> s = []"
  by (simp add: toLowerCase_def)

lemma keyOfInput_not_empty: "keyOfInput rawInput \<noteq> Some []"
proof -
  have "(case arrowMap u of
           Some k \<Rightarrow> Some k
         | None \<Rightarrow> if P then Some (toLowerCase u) else if Q then Some ''Space'' else None)
        \<noteq> Some []"
    if "P \<Longrightarrow> u \<noteq> []" for u P Q
    using that arrowMap_not_empty [of u]
    by (cases "arrowMap u") (simp_all add: toLowerCase_empty)
  moreover have "u \<noteq> []"
    if "case u of [c] \<Rightarrow> c \<in> set ''ABCDEFGHIJKLMNOPQRSTUVWXYZ'' | _ \<Rightarrow> False" for u
    using that by (cases u) simp_all
  ultimately show ?thesis
    unfolding keyOfInput_def Let_def by (simp del: set_simps)
qed

lemma selectFirstMovementKey_not_empty: "selectFirstMovementKey game \<noteq> Some []"
  by (simp add: selectFirstMovementKey_def keyOfInput_not_empty
      split: option.splits list.splits)

lemma selectFirstMovementKey_example:
  "selectFirstMovementKey (exampleGame gid st (Some i)) = (if i = [] then None else keyOfInput i)"
  by (simp add: selectFirstMovementKey_def exampleGame_def)

text \<open>
  Claim C6 as stated fails: an entry that declares a movement control from whose input
  description no key can be derived (here \<open>Mouse\<close>) is not tested for a response, and its
  noResponse flag stays false.
\<close>

theorem underivable_key_counterexample:
  "controls (exampleGame ''pong'' working (Some ''Mouse'')) =
     Some (Some [\<lparr>device = ''keyboard'', input = ''Mouse'', action = ''move''\<rparr>])
   \<and> selectFirstMovementKey (exampleGame ''pong'' working (Some ''Mouse'')) = None
   \<and> game_status (exampleGame ''pong'' working (Some ''Mouse'')) \<noteq> missing_assets
   \<and> ready (scanEntry 10000 (exampleGame ''pong'' working (Some ''Mouse'')) livelyObservations)
   \<and> \<not> noResponse
          (scanEntry 10000 (exampleGame ''pong'' working (Some ''Mouse'')) livelyObservations)"
proof -
  let ?g = "exampleGame ''pong'' working (Some ''Mouse'')"
  have g: "game_status ?g = working"
    by (simp add: exampleGame_def)
  have key: "selectFirstMovementKey ?g = None"
    by (simp add: selectFirstMovementKey_example keyOfInput_Mouse)
  have "controls ?g = Some (Some [\<lparr>device = ''keyboard'', input = ''Mouse'', action = ''move''\<rparr>])"
    by (simp add: exampleGame_def)
  moreover have "ready (scanEntry 10000 ?g livelyObservations)"
    by (simp add: scanEntry_def g probeGame_flags probeReady_lively)
  moreover have "\<not> noResponse (scanEntry 10000 ?g livelyObservations)"
    by (simp add: scanEntry_def g probeGame_flags probeNoResponse_no_key key)
  ultimately show ?thesis using g key by simp
qed

text \<open>
  Claim C6, amended. For every probed, ready entry: if a key is derived from the first
  movement control, the second snapshot was captured and the simulated dispatch fails, the
  noResponse flag is true; if no key is derived, no response test is attempted and noResponse
  stays false, and this is so in particular when the entry declares no movement control at
  all.
\<close>

theorem response_test_default:
  assumes "game_status game \<noteq> missing_assets" and "ready (scanEntry T game obs)"
  shows "(selectFirstMovementKey game \<noteq> None
          \<and> captureCanvasSignature (pageB obs) downscaleWidth \<noteq> None
          \<and> keyPress obs = DispatchFails
        \<longrightarrow> noResponse (scanEntry T game obs))
    \<and> (selectFirstMovementKey game = None \<longrightarrow> \<not> noResponse (scanEntry T game obs))
    \<and> (controls game = None \<or> controls game = Some None \<or> controls game = Some (Some [])
        \<longrightarrow> selectFirstMovementKey game = None \<and> \<not> noResponse (scanEntry T game obs))"
proof -
  from assms have r: "probeReady obs"
    by (simp add: scanEntry_def probeGame_flags)
  have nr: "noResponse (scanEntry T game obs) = probeNoResponse True game obs"
    using assms(1) r by (simp add: scanEntry_def probeGame_flags)
  have fails: "probeNoResponse True game obs"
    if "selectFirstMovementKey game \<noteq> None"
      "captureCanvasSignature (pageB obs) downscaleWidth \<noteq> None" "keyPress obs = DispatchFails"
  proof -
    from that(1) obtain k where k: "selectFirstMovementKey game = Some k"
      by auto
    with selectFirstMovementKey_not_empty [of game] have "k \<noteq> []"
      by auto
    with k that(2,3) show ?thesis
      by (auto simp: probeNoResponse_def Let_def)
  qed
  have none: "selectFirstMovementKey game = None"
    if "controls game = None \<or> controls game = Some None \<or> controls game = Some (Some [])"
    using that by (auto simp: selectFirstMovementKey_def)
  show ?thesis
    unfolding nr using fails none probeNoResponse_no_key [of game True obs] by blast
qed

theorem response_test_default_witness:
  "game_status (exampleGame ''pong'' working (Some ''A/D'')) \<noteq> missing_assets
   \<and> ready (scanEntry 10000 (exampleGame ''pong'' working (Some ''A/D''))
        (livelyObservations\<lparr>keyPress := DispatchFails\<rparr>))
   \<and> selectFirstMovementKey (exampleGame ''pong'' working (Some ''A/D'')) = Some ''a''
   \<and> captureCanvasSignature (pageB (livelyObservations\<lparr>keyPress := DispatchFails\<rparr>))
        downscaleWidth \<noteq> None
   \<and> keyPress (livelyObservations\<lparr>keyPress := DispatchFails\<rparr>) = DispatchFails
   \<and> noResponse (scanEntry 10000 (exampleGame ''pong'' working (Some ''A/D''))
        (livelyObservations\<lparr>keyPress := DispatchFails\<rparr>))
   \<and> game_status (exampleGame ''pong'' working None) \<noteq> missing_assets
   \<and> ready (scanEntry 10000 (exampleGame ''pong'' working None) livelyObservations)
   \<and> controls (exampleGame ''pong'' working None) = None
   \<and> \<not> noResponse (scanEntry 10000 (exampleGame ''pong'' working None) livelyObservations)"
proof -
  let ?g = "exampleGame ''pong'' working (Some ''A/D'')"
  let ?h = "exampleGame ''pong'' working None"
  let ?obs = "livelyObservations\<lparr>keyPress := DispatchFails\<rparr>"
  have g: "game_status ?g \<noteq> missing_assets" and h: "game_status ?h \<noteq> missing_assets"
    by (simp_all add: exampleGame_def)
  have ready_g: "ready (scanEntry 10000 ?g ?obs)"
    using g by (simp add: scanEntry_def probeGame_flags probeReady_def livelyObservations_def)
  have ready_h: "ready (scanEntry 10000 ?h livelyObservations)"
    using h by (simp add: scanEntry_def probeGame_flags probeReady_lively)
  have key: "selectFirstMovementKey ?g = Some ''a''"
    by (simp add: selectFirstMovementKey_example keyOfInput_A_D)
  have sigB: "captureCanvasSignature (pageB ?obs) downscaleWidth \<noteq> None"
    by (simp add: livelyObservations_def capture_canvasShowing)
  have press: "keyPress ?obs = DispatchFails"
    by simp
  have none: "controls ?h = None"
    by (simp add: exampleGame_def)
  from response_test_default [OF g ready_g] response_test_default [OF h ready_h]
  show ?thesis
    using g h ready_g ready_h key sigB press none by simp
qed


section \<open>Reconciliation\<close>

lemma scanEntry_ids:
  "result_id (scanEntry T game obs) = game_id game"
  "previousStatus (scanEntry T game obs) = game_status game"
  by (simp_all add: scanEntry_def excludedResult_def probeGame_flags)

lemma markTarget_related:
  "markTarget rid games = Some games' \<Longrightarrow>
     list_all2 (\<lambda>game game'. game' = game
        \<or> game' = game\<lparr>game_status := broken\<rparr> \<and> game_id game = rid) games games'"
proof (induction games arbitrary: games')
  case Nil
  then show ?case by simp
next
  case (Cons entry rest)
  show ?case
  proof (cases "game_id entry = rid")
    case True
    with Cons.prems have "games' = entry\<lparr>game_status := broken\<rparr> # rest"
      by simp
    with True show ?thesis
      by (simp add: list_all2_same)
  next
    case False
    with Cons.prems obtain rest' where "markTarget rid rest = Some rest'"
      and "games' = entry # rest'"
      by auto
    with Cons.IH [of rest'] show ?thesis by simp
  qed
qed

lemma reconcileResult_related:
  "list_all2 (\<lambda>game game'. game' = game
      \<or> game' = game\<lparr>game_status := broken\<rparr> \<and> result_id result = game_id game
        \<and> status result = broken \<and> previousStatus result \<noteq> broken)
     games (fst (reconcileResult result (games, changed)))"
proof (cases "status result = broken \<and> previousStatus result \<noteq> broken")
  case False
  then show ?thesis
    by (auto simp: reconcileResult_def list_all2_same)
next
  case True
  show ?thesis
  proof (cases "markTarget (result_id result) games")
    case None
    with True show ?thesis
      by (simp add: reconcileResult_def list_all2_same)
  next
    case (Some games')
    from markTarget_related [OF Some] have
      "list_all2 (\<lambda>game game'. game' = game
          \<or> game' = game\<lparr>game_status := broken\<rparr> \<and> result_id result = game_id game
            \<and> status result = broken \<and> previousStatus result \<noteq> broken) games games'"
      by (rule list_all2_mono) (use True in auto)
    with True Some show ?thesis
      by (simp add: reconcileResult_def)
  qed
qed

lemma fold_reconcileResult_related:
  "list_all2 (\<lambda>game game'. game' = game
      \<or> game' = game\<lparr>game_status := broken\<rparr>
        \<and> (\<exists>result \<in> set results. result_id result = game_id game
              \<and> status result = broken \<and> previousStatus result \<noteq> broken))
     games (fst (fold reconcileResult results (games, changed)))"
proof (induction results arbitrary: games changed)
  case Nil
  show ?case by (simp add: list_all2_same)
next
  case (Cons result results)
  obtain games1 changed1 where step: "reconcileResult result (games, changed) = (games1, changed1)"
    by (cases "reconcileResult result (games, changed)")
  from reconcileResult_related [of result games changed] step
  have first: "list_all2 (\<lambda>game game'. game' = game
      \<or> game' = game\<lparr>game_status := broken\<rparr> \<and> result_id result = game_id game
        \<and> status result = broken \<and> previousStatus result \<noteq> broken) games games1"
    by simp
  note rest = Cons.IH [of games1 changed1]
  have "list_all2 (\<lambda>game game'. game' = game
      \<or> game' = game\<lparr>game_status := broken\<rparr>
        \<and> (\<exists>r \<in> set (result # results). result_id r = game_id game
              \<and> status r = broken \<and> previousStatus r \<noteq> broken))
     games (fst (fold reconcileResult results (games1, changed1)))"
    using first rest
  proof (rule list_all2_trans [rotated])
    fix a b c :: ManifestGame
    assume ab: "b = a \<or> b = a\<lparr>game_status := broken\<rparr> \<and> result_id result = game_id a
        \<and> status result = broken \<and> previousStatus result \<noteq> broken"
      and bc: "c = b \<or> c = b\<lparr>game_status := broken\<rparr>
        \<and> (\<exists>r \<in> set results. result_id r = game_id b
              \<and> status r = broken \<and> previousStatus r \<noteq> broken)"
    from ab have id: "game_id b = game_id a" by auto
    from ab bc id show "c = a \<or> c = a\<lparr>game_status := broken\<rparr>
        \<and> (\<exists>r \<in> set (result # results). result_id r = game_id a
              \<and> status r = broken \<and> previousStatus r \<noteq> broken)"
      by auto
  qed
  with step show ?case by simp
qed

lemma markTarget_distinct:
  assumes "distinct (map game_id games)"
  shows "markTarget rid games =
    (if rid \<in> game_id ` set games
     then Some (map (\<lambda>game. if game_id game = rid then game\<lparr>game_status := broken\<rparr> else game)
            games)
     else None)"
  using assms
proof (induction games)
  case Nil
  show ?case by simp
next
  case (Cons entry rest)
  show ?case
  proof (cases "game_id entry = rid")
    case True
    with Cons.prems have "rid \<notin> game_id ` set rest"
      by auto
    then have "map (\<lambda>game. if game_id game = rid then game\<lparr>game_status := broken\<rparr> else game)
        rest = rest"
      by (intro map_idI) auto
    with True show ?thesis by simp
  next
    case False
    with Cons show ?thesis by auto
  qed
qed

lemma fold_reconcileResult_distinct:
  assumes "distinct (map game_id games)"
  shows "fold reconcileResult results (games, changed) =
    (map (\<lambda>game.
        if \<exists>result \<in> set results. result_id result = game_id game
             \<and> status result = broken \<and> previousStatus result \<noteq> broken
        then game\<lparr>game_status := broken\<rparr> else game) games,
     changed \<or> (\<exists>result \<in> set results. result_id result \<in> game_id ` set games
        \<and> status result = broken \<and> previousStatus result \<noteq> broken))"
  using assms
proof (induction results arbitrary: games changed)
  case Nil
  show ?case by (simp add: map_idI)
next
  case (Cons result results)
  let ?mark = "\<lambda>game. if game_id game = result_id result
    then game\<lparr>game_status := broken\<rparr> else game"
  show ?case
  proof (cases "status result = broken \<and> previousStatus result \<noteq> broken
      \<and> result_id result \<in> game_id ` set games")
    case True
    with Cons.prems have step:
      "reconcileResult result (games, changed) = (map ?mark games, True)"
      by (simp add: reconcileResult_def markTarget_distinct)
    have ids: "map game_id (map ?mark games) = map game_id games"
      by (induction games) simp_all
    then have same_ids: "game_id ` set (map ?mark games) = game_id ` set games"
      by (metis set_map)
    have "distinct (map game_id (map ?mark games))"
      by (simp only: ids Cons.prems)
    from Cons.IH [OF this, of True] step True show ?thesis
      unfolding same_ids by (auto simp: comp_def intro!: map_cong)
  next
    case False
    then have step: "reconcileResult result (games, changed) = (games, changed)"
      using Cons.prems by (auto simp: reconcileResult_def markTarget_distinct)
    from Cons.IH [OF Cons.prems, of changed] step False show ?thesis
      by (auto intro!: map_cong)
  qed
qed

lemma scan_regressions_by_position:
  assumes "distinct (map game_id games)" and "length observations = length games"
  shows "map (\<lambda>game.
        if \<exists>result \<in> set (scanGames T games observations). result_id result = game_id game
             \<and> status result = broken \<and> previousStatus result \<noteq> broken
        then game\<lparr>game_status := broken\<rparr> else game) games =
    map (\<lambda>(game, obs).
        if status (scanEntry T game obs) = broken \<and> game_status game \<noteq> broken
        then game\<lparr>game_status := broken\<rparr> else game) (zip games observations)"
proof (rule nth_equalityI)
  show "length (map (\<lambda>game.
        if \<exists>result \<in> set (scanGames T games observations). result_id result = game_id game
             \<and> status result = broken \<and> previousStatus result \<noteq> broken
        then game\<lparr>game_status := broken\<rparr> else game) games) =
    length (map (\<lambda>(game, obs).
        if status (scanEntry T game obs) = broken \<and> game_status game \<noteq> broken
        then game\<lparr>game_status := broken\<rparr> else game) (zip games observations))"
    using assms(2) by simp
next
  fix i
  assume "i < length (map (\<lambda>game.
        if \<exists>result \<in> set (scanGames T games observations). result_id result = game_id game
             \<and> status result = broken \<and> previousStatus result \<noteq> broken
        then game\<lparr>game_status := broken\<rparr> else game) games)"
  then have i: "i < length games" by simp
  let ?r = "scanEntry T (games ! i) (observations ! i)"
  have nth: "scanGames T games observations ! j = scanEntry T (games ! j) (observations ! j)"
    if "j < length games" for j
    using that assms(2) by (simp add: scanGames_def)
  have len: "length (scanGames T games observations) = length games"
    using assms(2) by (simp add: scanGames_def)
  have "(\<exists>result \<in> set (scanGames T games observations). result_id result = game_id (games ! i)
             \<and> status result = broken \<and> previousStatus result \<noteq> broken)
        \<longleftrightarrow> status ?r = broken \<and> game_status (games ! i) \<noteq> broken"
  proof
    assume "\<exists>result \<in> set (scanGames T games observations).
      result_id result = game_id (games ! i)
      \<and> status result = broken \<and> previousStatus result \<noteq> broken"
    then obtain result where "result \<in> set (scanGames T games observations)"
      and result: "result_id result = game_id (games ! i)" "status result = broken"
        "previousStatus result \<noteq> broken"
      by blast
    then obtain j where j: "j < length games"
      and "scanGames T games observations ! j = result"
      using len by (auto simp: in_set_conv_nth)
    with result have r: "result_id (scanGames T games observations ! j) = game_id (games ! i)"
        "status (scanGames T games observations ! j) = broken"
        "previousStatus (scanGames T games observations ! j) \<noteq> broken"
      by simp_all
    from r(1) j have "map game_id games ! j = map game_id games ! i"
      using i by (simp add: nth scanEntry_ids)
    with assms(1) i j have "j = i"
      using nth_eq_iff_index_eq [of "map game_id games" j i] by simp
    with r j show "status ?r = broken \<and> game_status (games ! i) \<noteq> broken"
      by (simp add: nth scanEntry_ids)
  next
    assume "status ?r = broken \<and> game_status (games ! i) \<noteq> broken"
    moreover have "scanGames T games observations ! i \<in> set (scanGames T games observations)"
      using i len by simp
    ultimately show "\<exists>result \<in> set (scanGames T games observations).
      result_id result = game_id (games ! i)
      \<and> status result = broken \<and> previousStatus result \<noteq> broken"
      using i by (auto simp: nth scanEntry_ids intro!: bexI [of _ ?r])
  qed
  with i assms(2) show "map (\<lambda>game.
        if \<exists>result \<in> set (scanGames T games observations). result_id result = game_id game
             \<and> status result = broken \<and> previousStatus result \<noteq> broken
        then game\<lparr>game_status := broken\<rparr> else game) games ! i =
    map (\<lambda>(game, obs).
        if status (scanEntry T game obs) = broken \<and> game_status game \<noteq> broken
        then game\<lparr>game_status := broken\<rparr> else game) (zip games observations) ! i"
    by simp
qed

lemma scan_changed:
  "(\<exists>result \<in> set (scanGames T games observations). result_id result \<in> game_id ` set games
        \<and> status result = broken \<and> previousStatus result \<noteq> broken)
   \<longleftrightarrow> (\<exists>(game, obs) \<in> set (zip games observations).
        status (scanEntry T game obs) = broken \<and> game_status game \<noteq> broken)"
proof
  assume "\<exists>result \<in> set (scanGames T games observations).
    result_id result \<in> game_id ` set games
    \<and> status result = broken \<and> previousStatus result \<noteq> broken"
  then show "\<exists>(game, obs) \<in> set (zip games observations).
    status (scanEntry T game obs) = broken \<and> game_status game \<noteq> broken"
    by (auto simp: scanGames_def scanEntry_ids)
next
  assume "\<exists>(game, obs) \<in> set (zip games observations).
    status (scanEntry T game obs) = broken \<and> game_status game \<noteq> broken"
  then obtain game obs where pair: "(game, obs) \<in> set (zip games observations)"
    and regressed: "status (scanEntry T game obs) = broken" "game_status game \<noteq> broken"
    by auto
  from pair have "scanEntry T game obs \<in> set (scanGames T games observations)"
    by (force simp: scanGames_def)
  moreover from pair have "game \<in> set games"
    by (rule set_zip_leftD)
  ultimately show "\<exists>result \<in> set (scanGames T games observations).
    result_id result \<in> game_id ` set games
    \<and> status result = broken \<and> previousStatus result \<noteq> broken"
    using regressed by (intro bexI [of _ "scanEntry T game obs"]) (simp_all add: scanEntry_ids)
qed

lemma reconcile_scan_distinct:
  assumes "distinct (map game_id games)" and "length observations = length games"
  shows "reconcile (scanGames T games observations) games =
    (map (\<lambda>(game, obs).
        if status (scanEntry T game obs) = broken \<and> game_status game \<noteq> broken
        then game\<lparr>game_status := broken\<rparr> else game) (zip games observations),
     \<exists>(game, obs) \<in> set (zip games observations).
        status (scanEntry T game obs) = broken \<and> game_status game \<noteq> broken)"
  unfolding reconcile_def fold_reconcileResult_distinct [OF assms(1)]
    scan_regressions_by_position [OF assms] scan_changed
  by simp

text \<open>
  Claim C7. Without \<open>--write\<close> the manifest is not written. With it, every record of the
  manifest is left as it was or has its status set to \<open>broken\<close>, and the latter only when a
  result for the id of the record has status \<open>broken\<close> and a previous status other than \<open>broken\<close>.
  When the ids of the manifest are distinct, the records changed are those of the entries whose
  own result is \<open>broken\<close> and whose persisted status was not; every other record, the ones
  already \<open>broken\<close> among them, is unchanged, and the file is written only if there is such an
  entry.
\<close>

theorem reconciliation_marks_only_regressions:
  "(\<not> writeChanges cli \<longrightarrow>
      manifestWritten (main cli reachable T games observations) = None)
   \<and> list_all2 (\<lambda>game game'. game' = game
        \<or> game' = game\<lparr>game_status := broken\<rparr>
          \<and> (\<exists>result \<in> set (scanGames T games observations). result_id result = game_id game
                \<and> status result = broken \<and> previousStatus result \<noteq> broken))
       games (fst (reconcile (scanGames T games observations) games))
   \<and> (distinct (map game_id games) \<and> length observations = length games \<longrightarrow>
        reconcile (scanGames T games observations) games =
          (map (\<lambda>(game, obs).
              if status (scanEntry T game obs) = broken \<and> game_status game \<noteq> broken
              then game\<lparr>game_status := broken\<rparr> else game) (zip games observations),
           \<exists>(game, obs) \<in> set (zip games observations).
              status (scanEntry T game obs) = broken \<and> game_status game \<noteq> broken)
        \<and> (reachable \<and> writeChanges cli \<longrightarrow>
            manifestWritten (main cli reachable T games observations) =
              (if \<exists>(game, obs) \<in> set (zip games observations).
                    status (scanEntry T game obs) = broken \<and> game_status game \<noteq> broken
               then Some (map (\<lambda>(game, obs).
                      if status (scanEntry T game obs) = broken \<and> game_status game \<noteq> broken
                      then game\<lparr>game_status := broken\<rparr> else game) (zip games observations))
               else None)))"
proof (intro conjI impI)
  assume "\<not> writeChanges cli"
  then show "manifestWritten (main cli reachable T games observations) = None"
    by (simp add: main_def Let_def)
next
  show "list_all2 (\<lambda>game game'. game' = game
        \<or> game' = game\<lparr>game_status := broken\<rparr>
          \<and> (\<exists>result \<in> set (scanGames T games observations). result_id result = game_id game
                \<and> status result = broken \<and> previousStatus result \<noteq> broken))
       games (fst (reconcile (scanGames T games observations) games))"
    unfolding reconcile_def by (rule fold_reconcileResult_related)
next
  assume "distinct (map game_id games) \<and> length observations = length games"
  then show "reconcile (scanGames T games observations) games =
          (map (\<lambda>(game, obs).
              if status (scanEntry T game obs) = broken \<and> game_status game \<noteq> broken
              then game\<lparr>game_status := broken\<rparr> else game) (zip games observations),
           \<exists>(game, obs) \<in> set (zip games observations).
              status (scanEntry T game obs) = broken \<and> game_status game \<noteq> broken)"
    by (simp add: reconcile_scan_distinct)
next
  assume "distinct (map game_id games) \<and> length observations = length games"
    and "reachable \<and> writeChanges cli"
  then show "manifestWritten (main cli reachable T games observations) =
              (if \<exists>(game, obs) \<in> set (zip games observations).
                    status (scanEntry T game obs) = broken \<and> game_status game \<noteq> broken
               then Some (map (\<lambda>(game, obs).
                      if status (scanEntry T game obs) = broken \<and> game_status game \<noteq> broken
                      then game\<lparr>game_status := broken\<rparr> else game) (zip games observations))
               else None)"
    by (simp add: main_def Let_def reconcile_scan_distinct)
qed

lemma exampleManifest_statuses:
  "status (scanEntry 10000 (exampleGame ''pong'' working None) deadObservations) = broken"
  "status (scanEntry 10000 (exampleGame ''maze'' broken None) deadObservations) = broken"
  "status (scanEntry 10000 (exampleGame ''snake'' working None) livelyObservations) = working"
  "game_status (exampleGame ''pong'' working None) = working"
  "game_status (exampleGame ''maze'' broken None) = broken"
  "game_status (exampleGame ''snake'' working None) = working"
  by (simp_all add: scanEntry_def exampleGame_def probeGame_flags probeReady_dead
      probeReady_lively probeNoMotion_lively probeNoResponse_no_key selectFirstMovementKey_def
      errors_lively derivedStatus_def shouldMarkBroken_def)

theorem reconciliation_marks_only_regressions_witness:
  "distinct (map game_id exampleManifest)
   \<and> length exampleObservations = length exampleManifest
   \<and> manifestWritten
       (main \<lparr>writeChanges = True\<rparr> True 10000 exampleManifest exampleObservations) =
       Some [(exampleGame ''pong'' working None)\<lparr>game_status := broken\<rparr>,
             exampleGame ''maze'' broken None, exampleGame ''snake'' working None]
   \<and> manifestWritten
       (main \<lparr>writeChanges = False\<rparr> True 10000 exampleManifest exampleObservations) = None"
proof -
  have d: "distinct (map game_id exampleManifest)"
    by (simp add: exampleManifest_def exampleGame_def)
  have l: "length exampleObservations = length exampleManifest"
    by (simp add: exampleManifest_def exampleObservations_def)
  from reconciliation_marks_only_regressions
      [of "\<lparr>writeChanges = True\<rparr>" True 10000 exampleManifest exampleObservations]
    reconciliation_marks_only_regressions
      [of "\<lparr>writeChanges = False\<rparr>" True 10000 exampleManifest exampleObservations]
    d l
  have "manifestWritten
       (main \<lparr>writeChanges = True\<rparr> True 10000 exampleManifest exampleObservations) =
       (if \<exists>(game, obs) \<in> set (zip exampleManifest exampleObservations).
             status (scanEntry 10000 game obs) = broken \<and> game_status game \<noteq> broken
        then Some (map (\<lambda>(game, obs).
               if status (scanEntry 10000 game obs) = broken \<and> game_status game \<noteq> broken
               then game\<lparr>game_status := broken\<rparr> else game)
               (zip exampleManifest exampleObservations))
        else None)"
    and "manifestWritten
       (main \<lparr>writeChanges = False\<rparr> True 10000 exampleManifest exampleObservations) = None"
    by simp_all
  then show ?thesis
    using d l
    by (simp add: exampleManifest_def exampleObservations_def exampleManifest_statuses)
qed


section \<open>The throttle of the metrics messages\<close>

lemma recordFrame_cases:
  assumes "recordFrame timestamp env st = (st', effects)"
  shows "effects = [] \<and> lastPost st' = lastPost st
    \<or> (\<exists>sample. effects = [Post ''arcade:metrics'' (MetricsPayload sample)])
      \<and> lastPost st' = timestamp \<and> 100 \<le> timestamp - lastPost st"
  using assms
  by (auto simp: recordFrame_def Let_def split: option.splits if_splits)

lemma recordFrames_after_lastPost:
  "\<forall>x \<in> set (recordFrames st frames).
     lastPost st + 100 \<le> fst x
     \<and> (\<exists>sample. snd x = Post ''arcade:metrics'' (MetricsPayload sample))"
proof (induction frames arbitrary: st)
  case Nil
  show ?case by simp
next
  case (Cons frame frames)
  obtain timestamp env where frame: "frame = (timestamp, env)"
    by (cases frame)
  obtain st' effects where step: "recordFrame timestamp env st = (st', effects)"
    by (cases "recordFrame timestamp env st")
  from recordFrame_cases [OF step] Cons.IH [of st'] show ?case
    unfolding frame by (auto simp: step)
qed

lemma recordFrames_spaced:
  "successively (\<lambda>a b. 100 \<le> fst b - fst a) (recordFrames st frames)"
proof (induction frames arbitrary: st)
  case Nil
  show ?case by simp
next
  case (Cons frame frames)
  obtain timestamp env where frame: "frame = (timestamp, env)"
    by (cases frame)
  obtain st' effects where step: "recordFrame timestamp env st = (st', effects)"
    by (cases "recordFrame timestamp env st")
  from recordFrame_cases [OF step] show ?case
  proof
    assume "effects = [] \<and> lastPost st' = lastPost st"
    with Cons.IH [of st'] show ?thesis
      by (simp add: frame step)
  next
    assume posted: "(\<exists>sample. effects = [Post ''arcade:metrics'' (MetricsPayload sample)])
      \<and> lastPost st' = timestamp \<and> 100 \<le> timestamp - lastPost st"
    then obtain sample where effects: "effects = [Post ''arcade:metrics'' (MetricsPayload sample)]"
      by auto
    have "\<forall>x \<in> set (recordFrames st' frames). 100 \<le> fst x - timestamp"
      using recordFrames_after_lastPost [of st' frames] posted by auto
    with Cons.IH [of st'] show ?thesis
      by (cases "recordFrames st' frames") (simp_all add: frame step effects)
  qed
qed

text \<open>
  Claim C8. For every state of the frame recorder and every sequence of frame timestamps fed
  to it, the messages it emits are metrics messages, and any two consecutive ones are emitted
  at timestamps at least 100 milliseconds apart.
\<close>

theorem metrics_at_least_100ms_apart:
  "successively (\<lambda>a b. 100 \<le> fst b - fst a) (recordFrames st frames)
   \<and> (\<forall>x \<in> set (recordFrames st frames).
        \<exists>sample. snd x = Post ''arcade:metrics'' (MetricsPayload sample))"
  using recordFrames_spaced [of st frames] recordFrames_after_lastPost [of st frames]
  by blast

lemma recordFrames_times:
  "map fst (recordFrames st frames) = postTimes (lastPost st) (map fst frames)"
proof (induction frames arbitrary: st)
  case Nil
  show ?case by simp
next
  case (Cons frame frames)
  obtain timestamp env where frame: "frame = (timestamp, env)"
    by (cases frame)
  obtain st' effects where step: "recordFrame timestamp env st = (st', effects)"
    by (cases "recordFrame timestamp env st")
  from step have
    "(100 \<le> timestamp - lastPost st \<longrightarrow> length effects = 1 \<and> lastPost st' = timestamp)
     \<and> (\<not> 100 \<le> timestamp - lastPost st \<longrightarrow> effects = [] \<and> lastPost st' = lastPost st)"
    by (auto simp: recordFrame_def Let_def split: option.splits if_splits)
  with Cons.IH [of st'] show ?case
    by (cases effects) (auto simp: frame step)
qed

lemma postTimes_240Hz:
  "postTimes 0 (map (\<lambda>k. real k * 25 / 6) [0..<49]) = [100, 200]"
  by (simp add: upt_conv_Cons)

theorem metrics_at_least_100ms_apart_witness:
  "map fst (recordFrames (initialMetricsState 0) (frames240Hz 49)) = [100, 200]
   \<and> successively (\<lambda>a b. 100 \<le> fst b - fst a)
       (recordFrames (initialMetricsState 0) (frames240Hz 49))"
proof -
  have "map fst (frames240Hz 49) = map (\<lambda>k. real k * 25 / 6) [0..<49]"
    by (simp add: frames240Hz_def frameAt_def comp_def)
  then have "map fst (recordFrames (initialMetricsState 0) (frames240Hz 49)) = [100, 200]"
    by (simp only: recordFrames_times postTimes_240Hz initialMetricsState_def
        metricsState.simps)
  with metrics_at_least_100ms_apart [of "initialMetricsState 0" "frames240Hz 49"]
  show ?thesis by blast
qed


section \<open>The control messages\<close>

text \<open>
  Claim C9. For a message that passes the checks of the source tag and of the origin: when its
  type is focus, blur, pause or resume, the agent dispatches a custom event of that name on the
  window, then on the document, and then posts a pause-state message that carries the name;
  when its type is toggle-help, the agent dispatches the custom event on both and posts nothing.
\<close>

theorem control_message_handling:
  assumes "msg_data event = Some d" and "msg_source d = Some BRIDGE_PARENT_SOURCE"
    and "msg_origin event = ORIGIN"
  shows "(msg_type d = Some t
          \<and> (t = ''arcade:focus'' \<or> t = ''arcade:blur'' \<or> t = ''arcade:pause''
              \<or> t = ''arcade:resume'')
        \<longrightarrow> onMessage ORIGIN storage event =
              [DispatchWindow t, DispatchDocument t,
               Post ''arcade:pause-state'' (PauseStatePayload t)])
    \<and> (msg_type d = Some ''arcade:toggle-help''
        \<longrightarrow> onMessage ORIGIN storage event =
              [DispatchWindow ''arcade:toggle-help'', DispatchDocument ''arcade:toggle-help''])"
  using assms by (auto simp: onMessage_def)

theorem control_message_handling_witness:
  "onMessage ''http://127.0.0.1:5173'' exampleStorage (controlMessage ''arcade:pause'') =
     [DispatchWindow ''arcade:pause'', DispatchDocument ''arcade:pause'',
      Post ''arcade:pause-state'' (PauseStatePayload ''arcade:pause'')]
   \<and> onMessage ''http://127.0.0.1:5173'' exampleStorage (controlMessage ''arcade:toggle-help'') =
     [DispatchWindow ''arcade:toggle-help'', DispatchDocument ''arcade:toggle-help'']"
proof -
  have checks: "msg_data (controlMessage t) =
      Some \<lparr>msg_source = Some BRIDGE_PARENT_SOURCE, msg_type = Some t\<rparr>"
    "msg_source \<lparr>msg_source = Some BRIDGE_PARENT_SOURCE, msg_type = Some t\<rparr> =
      Some BRIDGE_PARENT_SOURCE"
    "msg_origin (controlMessage t) = ''http://127.0.0.1:5173''" for t
    by (simp_all add: controlMessage_def)
  from control_message_handling [OF checks, of "''arcade:pause''" "''arcade:pause''" exampleStorage]
    control_message_handling
      [OF checks, of "''arcade:toggle-help''" "''arcade:toggle-help''" exampleStorage]
  show ?thesis by simp
qed


section \<open>The request for the high scores\<close>

lemma enumerateStorage_length_throws:
  "storage_length storage = Throws stack \<Longrightarrow>
     enumerateStorage storage i entries = (entries, Some stack)"
  by (subst enumerateStorage.simps) simp

lemma enumerateStorage_end:
  "storage_length storage = Returns n \<Longrightarrow> n \<le> i \<Longrightarrow>
     enumerateStorage storage i entries = (entries, None)"
  by (subst enumerateStorage.simps) simp

lemma enumerateStorage_step:
  "storage_length storage = Returns n \<Longrightarrow> i < n \<Longrightarrow>
     enumerateStorage storage i entries =
       (case storageEntryAt storage i of
          Throws stack \<Rightarrow> (entries, Some stack)
        | Returns es \<Rightarrow> enumerateStorage storage (i + 1) (entries @ es))"
  by (subst enumerateStorage.simps)
    (simp add: storageEntryAt_def split: outcome.splits option.splits)

lemma entriesBetween_step:
  "i < k \<Longrightarrow> storageEntryAt storage i = Returns es \<Longrightarrow>
     entriesBetween storage i k = es @ entriesBetween storage (i + 1) k"
  by (simp add: entriesBetween_def upt_conv_Cons)

lemma enumerateStorage_until_failure:
  assumes "storage_length storage = Returns n" and "k < n"
    and "\<forall>j. i \<le> j \<and> j < k \<longrightarrow> (\<exists>es. storageEntryAt storage j = Returns es)"
    and "storageEntryAt storage k = Throws stack" and "i \<le> k"
  shows "enumerateStorage storage i entries =
    (entries @ entriesBetween storage i k, Some stack)"
  using assms(3,5)
proof (induction "k - i" arbitrary: i entries)
  case 0
  then have "i = k" by simp
  with assms(1,2,4) show ?case
    by (simp add: enumerateStorage_step entriesBetween_def)
next
  case (Suc d)
  then have less: "i < k" by simp
  with Suc.prems obtain es where es: "storageEntryAt storage i = Returns es"
    by auto
  from less assms(2) have "i < n" by simp
  with assms(1) es have "enumerateStorage storage i entries =
      enumerateStorage storage (i + 1) (entries @ es)"
    by (simp add: enumerateStorage_step)
  also have "\<dots> = ((entries @ es) @ entriesBetween storage (i + 1) k, Some stack)"
    using Suc.hyps(2) Suc.prems less by (intro Suc.hyps(1)) auto
  finally show ?case
    using entriesBetween_step [OF less es] by simp
qed

lemma enumerateStorage_without_failure:
  assumes "storage_length storage = Returns n"
    and "\<forall>j. i \<le> j \<and> j < n \<longrightarrow> (\<exists>es. storageEntryAt storage j = Returns es)"
  shows "enumerateStorage storage i entries = (entries @ entriesBetween storage i n, None)"
  using assms(2)
proof (induction "n - i" arbitrary: i entries)
  case 0
  then have "n \<le> i" by simp
  with assms(1) show ?case
    by (simp add: enumerateStorage_end entriesBetween_def)
next
  case (Suc d)
  then have less: "i < n" by simp
  with Suc.prems obtain es where es: "storageEntryAt storage i = Returns es"
    by auto
  from assms(1) less es have "enumerateStorage storage i entries =
      enumerateStorage storage (i + 1) (entries @ es)"
    by (simp add: enumerateStorage_step)
  also have "\<dots> = ((entries @ es) @ entriesBetween storage (i + 1) n, None)"
    using Suc.hyps(2) Suc.prems by (intro Suc.hyps(1)) auto
  finally show ?case
    using entriesBetween_step [OF less es] by simp
qed

lemma requestHighscores_count:
  "length (filter isHighscoresPost (requestHighscores storage)) = 1"
  by (simp add: requestHighscores_def isHighscoresPost_def split: prod.splits option.splits)

text \<open>
  Claim C10. For a request-highscores message that passes the checks of the source tag and of
  the origin, the agent posts exactly one highscores message, and it is the last thing it does.
  When no call of the storage throws, this is the only message, with the entries of all the
  indices. When the iteration at index \<open>k\<close> is the first to throw, or when reading the length
  throws, an error message is posted first, and the highscores message carries the entries
  collected before the failure (none in the second case).
\<close>

theorem highscores_always_answered:
  assumes "msg_data event = Some d" and "msg_source d = Some BRIDGE_PARENT_SOURCE"
    and "msg_origin event = ORIGIN" and "msg_type d = Some ''arcade:request-highscores''"
  shows "length (filter isHighscoresPost (onMessage ORIGIN storage event)) = 1
    \<and> isHighscoresPost (last (onMessage ORIGIN storage event))
    \<and> (storage_length storage = Returns n
        \<and> (\<forall>j < n. \<exists>es. storageEntryAt storage j = Returns es)
       \<longrightarrow> onMessage ORIGIN storage event =
            [Post ''arcade:highscores'' (HighscoresPayload (entriesBetween storage 0 n))])
    \<and> (storage_length storage = Returns n \<and> k < n
        \<and> (\<forall>j < k. \<exists>es. storageEntryAt storage j = Returns es)
        \<and> storageEntryAt storage k = Throws stack
       \<longrightarrow> onMessage ORIGIN storage event =
            [Post ''arcade:error'' (ErrorPayload ''Failed to enumerate localStorage'' stack),
             Post ''arcade:highscores'' (HighscoresPayload (entriesBetween storage 0 k))])
    \<and> (storage_length storage = Throws stack
       \<longrightarrow> onMessage ORIGIN storage event =
            [Post ''arcade:error'' (ErrorPayload ''Failed to enumerate localStorage'' stack),
             Post ''arcade:highscores'' (HighscoresPayload [])])"
proof -
  from assms have handler: "onMessage ORIGIN storage event = requestHighscores storage"
    by (simp add: onMessage_def)
  have "isHighscoresPost (last (requestHighscores storage))"
    by (simp add: requestHighscores_def isHighscoresPost_def split: prod.splits)
  moreover have "requestHighscores storage =
      [Post ''arcade:highscores'' (HighscoresPayload (entriesBetween storage 0 n))]"
    if "storage_length storage = Returns n"
      "\<forall>j < n. \<exists>es. storageEntryAt storage j = Returns es"
    using enumerateStorage_without_failure [of storage n 0 "[]"] that
    by (simp add: requestHighscores_def)
  moreover have "requestHighscores storage =
      [Post ''arcade:error'' (ErrorPayload ''Failed to enumerate localStorage'' stack),
       Post ''arcade:highscores'' (HighscoresPayload (entriesBetween storage 0 k))]"
    if "storage_length storage = Returns n" "k < n"
      "\<forall>j < k. \<exists>es. storageEntryAt storage j = Returns es"
      "storageEntryAt storage k = Throws stack"
    using enumerateStorage_until_failure [of storage n k 0 stack "[]"] that
    by (simp add: requestHighscores_def)
  moreover have "requestHighscores storage =
      [Post ''arcade:error'' (ErrorPayload ''Failed to enumerate localStorage'' stack),
       Post ''arcade:highscores'' (HighscoresPayload [])]"
    if "storage_length storage = Throws stack"
    using enumerateStorage_length_throws [OF that, of 0 "[]"]
    by (simp add: requestHighscores_def)
  ultimately show ?thesis
    unfolding handler using requestHighscores_count [of storage] by blast
qed

lemma exampleStorage_entries:
  "storageEntryAt exampleStorage 0 = Returns [(''impulseHighScore'', Some ''120'')]"
  "storageEntryAt exampleStorage (Suc 0) = Returns [(''gravityFlipHighScore'', Some ''7'')]"
  "storageEntryAt failingStorage 0 = Returns [(''impulseHighScore'', Some ''120'')]"
  "storageEntryAt failingStorage (Suc 0) = Returns [(''gravityFlipHighScore'', Some ''7'')]"
  "storageEntryAt failingStorage 2 = Throws (Some ''SecurityError'')"
  by (simp_all add: storageEntryAt_def exampleStorage_def failingStorage_def)

lemma exampleStorage_collected:
  "entriesBetween exampleStorage 0 2 =
     [(''impulseHighScore'', Some ''120''), (''gravityFlipHighScore'', Some ''7'')]"
  "entriesBetween failingStorage 0 2 =
     [(''impulseHighScore'', Some ''120''), (''gravityFlipHighScore'', Some ''7'')]"
  by (simp_all add: entriesBetween_def upt_conv_Cons exampleStorage_entries)

theorem highscores_always_answered_witness:
  "onMessage ''http://127.0.0.1:5173'' exampleStorage
     (controlMessage ''arcade:request-highscores'') =
     [Post ''arcade:highscores''
        (HighscoresPayload
           [(''impulseHighScore'', Some ''120''), (''gravityFlipHighScore'', Some ''7'')])]
   \<and> onMessage ''http://127.0.0.1:5173'' failingStorage
     (controlMessage ''arcade:request-highscores'') =
     [Post ''arcade:error''
        (ErrorPayload ''Failed to enumerate localStorage'' (Some ''SecurityError'')),
      Post ''arcade:highscores''
        (HighscoresPayload
           [(''impulseHighScore'', Some ''120''), (''gravityFlipHighScore'', Some ''7'')])]
   \<and> length (filter isHighscoresPost
        (onMessage ''http://127.0.0.1:5173'' failingStorage
           (controlMessage ''arcade:request-highscores''))) = 1"
proof -
  let ?d = "\<lparr>msg_source = Some BRIDGE_PARENT_SOURCE,
    msg_type = Some ''arcade:request-highscores''\<rparr>"
  have checks: "msg_data (controlMessage ''arcade:request-highscores'') = Some ?d"
    "msg_source ?d = Some BRIDGE_PARENT_SOURCE"
    "msg_origin (controlMessage ''arcade:request-highscores'') = ''http://127.0.0.1:5173''"
    "msg_type ?d = Some ''arcade:request-highscores''"
    by (simp_all add: controlMessage_def)
  have lengths: "storage_length exampleStorage = Returns 2"
    "storage_length failingStorage = Returns 3"
    by (simp_all add: exampleStorage_def failingStorage_def)
  have returns: "\<forall>j < 2. \<exists>es. storageEntryAt exampleStorage j = Returns es"
    "\<forall>j < 2. \<exists>es. storageEntryAt failingStorage j = Returns es"
    by (auto simp: less_Suc_eq numeral_2_eq_2 exampleStorage_entries)
  from highscores_always_answered [OF checks, of exampleStorage 2]
    lengths(1) returns(1)
  have good: "onMessage ''http://127.0.0.1:5173'' exampleStorage
      (controlMessage ''arcade:request-highscores'') =
      [Post ''arcade:highscores'' (HighscoresPayload (entriesBetween exampleStorage 0 2))]"
    by blast
  have less: "(2 :: nat) < 3"
    by simp
  from highscores_always_answered
      [OF checks, of failingStorage 3 2 "Some ''SecurityError''"]
    lengths(2) returns(2) exampleStorage_entries(5) less
  have bad: "onMessage ''http://127.0.0.1:5173'' failingStorage
      (controlMessage ''arcade:request-highscores'') =
      [Post ''arcade:error''
         (ErrorPayload ''Failed to enumerate localStorage'' (Some ''SecurityError'')),
       Post ''arcade:highscores'' (HighscoresPayload (entriesBetween failingStorage 0 2))]"
    and count: "length (filter isHighscoresPost
        (onMessage ''http://127.0.0.1:5173'' failingStorage
           (controlMessage ''arcade:request-highscores''))) = 1"
    by blast+
  from good bad count show ?thesis
    by (simp only: exampleStorage_collected simp_thms)
qed


end
